theory Spec2Isabelle
  imports Main "HOL-Library.AList" "HOL-Library.Sublist" "HOL-Library.Word"
begin

section \<open>MiniGit: the repository engine of MiniGitSystem.hpp\<close>

text \<open>
  The class \<open>MiniGitSystem\<close> keeps five members in memory (the commit cache, the branch
  map, the staging area and the two HEAD fields) and stores everything else in files under
  \<open>.minigit\<close>. The model is a record holding the five members together with the file
  tree they are persisted to, and every member function is a function on that record.

  Conventions of the model:
  \<^item> A \<open>std::unordered_map\<close> is an association list. Lookup, insertion and erasure go
    through \<open>map_of\<close>, \<open>AList.update\<close> and \<open>AList.delete\<close>; a range-for over the
    container visits \<open>entries\<close>, one pair per key, in the order of the list. C++ leaves
    that iteration order unspecified, so the list order stands for whatever order the
    container has.
  \<^item> The file tree is an association list from relative path to node. Paths are compared
    as the strings the program builds; no normalisation of \<open>.\<close>, \<open>..\<close> or doubled
    separators is modelled, nor are permissions. An output stream opens when the path is not
    a directory and its parent directory exists; an input stream opens on a regular file.
  \<^item> Every mutation of the file tree is appended to a journal, so that the order of the
    writes of one operation can be stated.
  \<^item> \<open>std::hash<std::string>\<close> belongs to the C++ library and is a parameter
    \<open>hasher\<close>, with \<open>size_t\<close> taken to be 64 bits wide; the clock is a parameter
    \<open>now\<close>.
  \<^item> What an operation prints is summarised by an \<open>outcome\<close>, named after the error
    kinds of the specification.
\<close>

subsection \<open>Data\<close>

record Commit =
  hash :: string
  message :: string
  timestamp :: string
  parentHashes :: "string list"
  fileBlobs :: "(string \<times> string) list"

datatype node = File string | Dir

datatype fs_op = Write string string | Remove string | Mkdir string

record world =
  files :: "(string \<times> node) list"
  journal :: "fs_op list"
  commits :: "(string \<times> Commit) list"
  branches :: "(string \<times> string) list"
  stagingArea :: "(string \<times> string) list"
  headBranch :: string
  headCommitHash :: string

datatype warning = MissingObject string string | CannotWrite string

datatype outcome =
    Initialized | AlreadyInitialized | InitFailed
  | NotARepository
  | NoSuchPath | NotARegularFile | UnreadableFile | AlreadyStaged | Added string
  | NoEffectiveChanges | Committed string
  | NoCommits | BranchExists | Created
  | WorkingDirDirty | UnknownTarget | CorruptCommit | AlreadyOn
  | SwitchedToEmpty | CheckedOut "warning list"
  | Crashed

definition entries :: "('k \<times> 'v) list \<Rightarrow> ('k \<times> 'v) list" where
  "entries m = AList.clearjunk m"

definition count_key :: "('k \<times> 'v) list \<Rightarrow> 'k \<Rightarrow> bool" where
  "count_key m k = (map_of m k \<noteq> None)"

definition at_key :: "('k \<times> string) list \<Rightarrow> 'k \<Rightarrow> string" where
  "at_key m k = (case map_of m k of Some v \<Rightarrow> v | None \<Rightarrow> [])"

definition starts_with :: "string \<Rightarrow> string \<Rightarrow> bool" where
  "starts_with p s = (take (length p) s = p)"

subsection \<open>The file tree\<close>

definition fs_exists :: "(string \<times> node) list \<Rightarrow> string \<Rightarrow> bool" where
  "fs_exists fs p = (map_of fs p \<noteq> None)"

definition is_regular_file :: "(string \<times> node) list \<Rightarrow> string \<Rightarrow> bool" where
  "is_regular_file fs p = (case map_of fs p of Some (File c) \<Rightarrow> True | _ \<Rightarrow> False)"

definition file_at :: "(string \<times> node) list \<Rightarrow> string \<Rightarrow> string option" where
  "file_at fs p = (case map_of fs p of Some (File c) \<Rightarrow> Some c | _ \<Rightarrow> None)"

definition parent_path :: "string \<Rightarrow> string" where
  "parent_path p = rev (drop 1 (dropWhile (\<lambda>c. c \<noteq> CHR ''/'') (rev p)))"

definition can_open_out :: "(string \<times> node) list \<Rightarrow> string \<Rightarrow> bool" where
  "can_open_out fs p =
     (p \<noteq> [] \<and> map_of fs p \<noteq> Some Dir \<and>
      (parent_path p = [] \<or> map_of fs (parent_path p) = Some Dir))"

definition write_file :: "string \<Rightarrow> string \<Rightarrow> world \<Rightarrow> world option" where
  "write_file p c w =
     (if can_open_out (files w) p
      then Some (w\<lparr>files := AList.update p (File c) (files w),
                   journal := journal w @ [Write p c]\<rparr>)
      else None)"

definition remove_file :: "string \<Rightarrow> world \<Rightarrow> world" where
  "remove_file p w =
     (if fs_exists (files w) p
      then w\<lparr>files := AList.delete p (files w), journal := journal w @ [Remove p]\<rparr>
      else w)"

text \<open>\<open>fs::create_directory\<close>: nothing to do on a directory, an exception (\<open>None\<close>) when
  the path is taken by a file or the parent is missing.\<close>

definition create_directory :: "string \<Rightarrow> world \<Rightarrow> world option" where
  "create_directory p w =
     (case map_of (files w) p of
        Some Dir \<Rightarrow> Some w
      | Some (File c) \<Rightarrow> None
      | None \<Rightarrow>
          (if parent_path p = [] \<or> map_of (files w) (parent_path p) = Some Dir
           then Some (w\<lparr>files := AList.update p Dir (files w),
                        journal := journal w @ [Mkdir p]\<rparr>)
           else None))"

fun dir_prefixes_acc :: "string \<Rightarrow> string \<Rightarrow> string list" where
  "dir_prefixes_acc seen [] = (if seen = [] then [] else [rev seen])"
| "dir_prefixes_acc seen (c # cs) =
     (if c = CHR ''/'' \<and> seen \<noteq> [] then rev seen # dir_prefixes_acc (c # seen) cs
      else dir_prefixes_acc (c # seen) cs)"

definition dir_prefixes :: "string \<Rightarrow> string list" where
  "dir_prefixes p = dir_prefixes_acc [] p"

text \<open>\<open>fs::create_directories\<close> creates the missing directories from the outermost one. The
  flag of the result says whether it completed; when it is \<open>False\<close> a
  \<open>filesystem_error\<close> was thrown and the state is the one reached at the throw.\<close>

fun mkdirs :: "string list \<Rightarrow> world \<Rightarrow> bool \<times> world" where
  "mkdirs [] w = (True, w)"
| "mkdirs (q # qs) w =
     (case create_directory q w of None \<Rightarrow> (False, w) | Some w' \<Rightarrow> mkdirs qs w')"

definition create_directories :: "string \<Rightarrow> world \<Rightarrow> bool \<times> world" where
  "create_directories p w = mkdirs (dir_prefixes p) w"

text \<open>The regular files a \<open>directory_iterator\<close> finds directly inside a directory, given
  the directory's path with its trailing separator (empty for the working root).\<close>

definition dir_files :: "(string \<times> node) list \<Rightarrow> string \<Rightarrow> string list" where
  "dir_files fs d =
     [drop (length d) p. (p, n) \<leftarrow> entries fs, n \<noteq> Dir, starts_with d p,
        drop (length d) p \<noteq> [], CHR ''/'' \<notin> set (drop (length d) p)]"

text \<open>The filter every scan of the working root applies: regular, not \<open>.minigit\<close>, first
  character not a dot.\<close>

definition wd_scan :: "(string \<times> node) list \<Rightarrow> string list" where
  "wd_scan fs = [f \<leftarrow> dir_files fs []. f \<noteq> ''.minigit'' \<and> hd f \<noteq> CHR ''.'']"

text \<open>Replaying journal entries on a file tree.\<close>

fun apply_op :: "fs_op \<Rightarrow> (string \<times> node) list \<Rightarrow> (string \<times> node) list" where
  "apply_op (Write p c) fs = AList.update p (File c) fs"
| "apply_op (Remove p) fs = AList.delete p fs"
| "apply_op (Mkdir p) fs = AList.update p Dir fs"

definition replay :: "fs_op list \<Rightarrow> (string \<times> node) list \<Rightarrow> (string \<times> node) list" where
  "replay ops fs = fold apply_op ops fs"

subsection \<open>Private utility methods\<close>

definition digit :: "nat \<Rightarrow> char" where
  "digit d = ''0123456789'' ! d"

text \<open>\<open>std::to_string\<close> on an unsigned value: its decimal digits.\<close>

function to_string :: "nat \<Rightarrow> string" where
  "to_string n =
     (if n < 10 then [digit n]
      else to_string (n div 10) @ [digit (n mod 10)])"
  by pat_completeness auto
termination
  by (relation "measure id") auto

declare to_string.simps [simp del]

definition hashFileContent :: "(string \<Rightarrow> 64 word) \<Rightarrow> string \<Rightarrow> string" where
  "hashFileContent hasher content = to_string (unat (hasher content))"

definition readFileContent :: "(string \<times> node) list \<Rightarrow> string \<Rightarrow> string" where
  "readFileContent fs filename =
     (case map_of fs filename of Some (File c) \<Rightarrow> c | _ \<Rightarrow> [])"

definition saveBlob :: "string \<Rightarrow> string \<Rightarrow> world \<Rightarrow> world" where
  "saveBlob h content w =
     (case write_file (''.minigit/objects/'' @ h) content w of
        None \<Rightarrow> w
      | Some w' \<Rightarrow> w')"

definition loadBlob :: "(string \<times> node) list \<Rightarrow> string \<Rightarrow> string" where
  "loadBlob fs h =
     (case map_of fs (''.minigit/objects/'' @ h) of Some (File c) \<Rightarrow> c | _ \<Rightarrow> [])"


subsection \<open>The commit store\<close>

definition serialize :: "Commit \<Rightarrow> string" where
  "serialize c =
     ''message:'' @ message c @ ''\<newline>'' @
     ''timestamp:'' @ timestamp c @ ''\<newline>'' @
     ''parents:'' @ concat (map (\<lambda>p. p @ '' '') (parentHashes c)) @ ''\<newline>'' @
     ''files:\<newline>'' @
     concat (map (\<lambda>(f, b). f @ '':'' @ b @ ''\<newline>'') (entries (fileBlobs c)))"

definition writeCommitToFile :: "Commit \<Rightarrow> world \<Rightarrow> world" where
  "writeCommitToFile c w =
     (case write_file (''.minigit/commits/'' @ hash c) (serialize c) w of
        None \<Rightarrow> w
      | Some w' \<Rightarrow> w')"

text \<open>\<open>std::getline\<close> in a loop: the text is cut at every newline, and what follows the
  last newline is a line of its own when it is not empty.\<close>

fun getlines_acc :: "string \<Rightarrow> string \<Rightarrow> string list" where
  "getlines_acc cur [] = (if cur = [] then [] else [rev cur])"
| "getlines_acc cur (c # cs) =
     (if c = CHR 0x0A then rev cur # getlines_acc [] cs else getlines_acc (c # cur) cs)"

definition getlines :: "string \<Rightarrow> string list" where
  "getlines s = getlines_acc [] s"

definition isspace :: "char \<Rightarrow> bool" where
  "isspace c = ((of_char c :: nat) = 32 \<or> (9 \<le> (of_char c :: nat) \<and> (of_char c :: nat) \<le> 13))"

text \<open>\<open>ss >> parentHash\<close> in a loop: the whitespace-separated words of a line.\<close>

fun tokens_acc :: "string \<Rightarrow> string \<Rightarrow> string list" where
  "tokens_acc cur [] = (if cur = [] then [] else [rev cur])"
| "tokens_acc cur (c # cs) =
     (if isspace c
      then (if cur = [] then tokens_acc [] cs else rev cur # tokens_acc [] cs)
      else tokens_acc (c # cur) cs)"

definition empty_commit :: Commit where
  "empty_commit = \<lparr>hash = [], message = [], timestamp = [], parentHashes = [], fileBlobs = []\<rparr>"

text \<open>The reading loop of \<open>loadCommitFromFile\<close>. The flag is set while the inner loop
  after the \<open>files:\<close> line is running; an empty line ends that loop.\<close>

fun parse_lines :: "bool \<Rightarrow> string list \<Rightarrow> Commit \<Rightarrow> Commit" where
  "parse_lines in_files [] c = c"
| "parse_lines True (l # ls) c =
     (if l = [] then parse_lines False ls c
      else parse_lines True ls
        (if CHR '':'' \<in> set l
         then c\<lparr>fileBlobs :=
                  AList.update (takeWhile (\<lambda>x. x \<noteq> CHR '':'') l)
                    (drop 1 (dropWhile (\<lambda>x. x \<noteq> CHR '':'') l)) (fileBlobs c)\<rparr>
         else c))"
| "parse_lines False (l # ls) c =
     (if starts_with ''message:'' l then parse_lines False ls (c\<lparr>message := drop 8 l\<rparr>)
      else if starts_with ''timestamp:'' l then parse_lines False ls (c\<lparr>timestamp := drop 10 l\<rparr>)
      else if starts_with ''parents:'' l
        then parse_lines False ls (c\<lparr>parentHashes := parentHashes c @ tokens_acc [] (drop 8 l)\<rparr>)
      else if starts_with ''files:'' l then parse_lines True ls c
      else parse_lines False ls c)"

definition loadCommitFromFile :: "(string \<times> node) list \<Rightarrow> string \<Rightarrow> Commit" where
  "loadCommitFromFile fs commitHash =
     (case map_of fs (''.minigit/commits/'' @ commitHash) of
        Some (File txt) \<Rightarrow> parse_lines False (getlines txt) (empty_commit\<lparr>hash := commitHash\<rparr>)
      | _ \<Rightarrow> empty_commit)"

subsection \<open>The ref store\<close>

definition head_text :: "world \<Rightarrow> string" where
  "head_text w =
     (if headBranch w \<noteq> [] then ''ref: refs/heads/'' @ headBranch w @ ''\<newline>''
      else headCommitHash w @ ''\<newline>'')"

definition save_head :: "world \<Rightarrow> world" where
  "save_head w = (case write_file ''.minigit/HEAD'' (head_text w) w of None \<Rightarrow> w | Some w' \<Rightarrow> w')"

text \<open>The flag of the result is \<open>False\<close> when \<open>create_directories\<close> threw.\<close>

definition saveHeadAndBranchRefs :: "world \<Rightarrow> bool \<times> world" where
  "saveHeadAndBranchRefs w =
     (if headBranch w \<noteq> [] \<and> headCommitHash w \<noteq> []
      then (case create_directories ''.minigit/refs/heads'' w of
              (False, w1) \<Rightarrow> (False, w1)
            | (True, w1) \<Rightarrow>
                (case write_file (''.minigit/refs/heads/'' @ headBranch w)
                        (headCommitHash w @ ''\<newline>'') w1 of
                   None \<Rightarrow> (True, w1)
                 | Some w2 \<Rightarrow> (True, save_head w2)))
      else (True, save_head w))"

definition first_line :: "string \<Rightarrow> string" where
  "first_line s = takeWhile (\<lambda>c. c \<noteq> CHR 0x0A) s"

text \<open>\<open>loadRepoState\<close>; \<open>None\<close> when a \<open>directory_iterator\<close> is opened on something
  that is not a directory, which throws out of the constructor.\<close>

definition load_head_fields :: "world \<Rightarrow> world" where
  "load_head_fields w =
     (case file_at (files w) ''.minigit/HEAD'' of
        Some txt \<Rightarrow>
          (if starts_with ''ref: refs/heads/'' (first_line txt)
           then w\<lparr>headBranch := drop 16 (first_line txt),
                  headCommitHash :=
                    (case file_at (files w) (''.minigit/refs/heads/'' @ drop 16 (first_line txt)) of
                       Some r \<Rightarrow> first_line r
                     | None \<Rightarrow> [])\<rparr>
           else w\<lparr>headBranch := [], headCommitHash := first_line txt\<rparr>)
      | None \<Rightarrow> w\<lparr>headBranch := ''master'', headCommitHash := []\<rparr>)"

definition load_commits :: "world \<Rightarrow> world option" where
  "load_commits w =
     (case map_of (files w) ''.minigit/commits'' of
        None \<Rightarrow> Some w
      | Some (File c) \<Rightarrow> None
      | Some Dir \<Rightarrow>
          Some (w\<lparr>commits :=
                    fold (\<lambda>h cs. AList.update h (loadCommitFromFile (files w) h) cs)
                      (dir_files (files w) ''.minigit/commits/'') (commits w)\<rparr>))"

definition load_branches :: "world \<Rightarrow> world option" where
  "load_branches w =
     (case map_of (files w) ''.minigit/refs/heads'' of
        None \<Rightarrow> Some w
      | Some (File c) \<Rightarrow> None
      | Some Dir \<Rightarrow>
          Some (w\<lparr>branches :=
                    fold (\<lambda>b bs. AList.update b
                            (first_line (readFileContent (files w) (''.minigit/refs/heads/'' @ b))) bs)
                      (dir_files (files w) ''.minigit/refs/heads/'') (branches w)\<rparr>))"

definition loadRepoState :: "world \<Rightarrow> world option" where
  "loadRepoState w =
     (case load_commits (load_head_fields w) of
        None \<Rightarrow> None
      | Some w1 \<Rightarrow>
          (case load_branches w1 of
             None \<Rightarrow> None
           | Some w2 \<Rightarrow> Some (w2\<lparr>stagingArea := []\<rparr>)))"

text \<open>The constructor, run by every process on the file tree it finds.\<close>

definition fresh :: "(string \<times> node) list \<Rightarrow> fs_op list \<Rightarrow> world" where
  "fresh fs j =
     \<lparr>files = fs, journal = j, commits = [], branches = [], stagingArea = [],
      headBranch = ''master'', headCommitHash = []\<rparr>"

definition MiniGitSystem :: "(string \<times> node) list \<Rightarrow> fs_op list \<Rightarrow> world option" where
  "MiniGitSystem fs j =
     (if fs_exists fs ''.minigit'' then loadRepoState (fresh fs j) else Some (fresh fs j))"


subsection \<open>Working-directory reconciliation\<close>

text \<open>One round of the first loop of \<open>populateWorkingDirectory\<close>, on the file tree, the
  set \<open>wdFiles\<close> of names not yet handled and the warnings printed so far.\<close>

definition materialize ::
  "string \<times> string \<Rightarrow> world \<times> string list \<times> warning list \<Rightarrow> world \<times> string list \<times> warning list" where
  "materialize e st =
     (case (e, st) of ((filename, blobHash), (w, wdFiles, warns)) \<Rightarrow>
        if loadBlob (files w) blobHash = [] \<and>
           \<not> fs_exists (files w) (''.minigit/objects/'' @ blobHash)
        then (w, wdFiles, warns @ [MissingObject filename blobHash])
        else (case write_file filename (loadBlob (files w) blobHash) w of
                Some w' \<Rightarrow> (w', removeAll filename wdFiles, warns)
              | None \<Rightarrow> (w, removeAll filename wdFiles, warns @ [CannotWrite filename])))"

definition remove_stale :: "Commit \<Rightarrow> string \<Rightarrow> world \<Rightarrow> world" where
  "remove_stale c wdFilename w =
     (if wdFilename = ''.minigit'' \<or> hd wdFilename = CHR ''.'' then w
      else if \<not> count_key (fileBlobs c) wdFilename then remove_file wdFilename w
      else w)"

definition populateWorkingDirectory :: "Commit \<Rightarrow> world \<Rightarrow> world \<times> warning list" where
  "populateWorkingDirectory c w =
     (case fold materialize (entries (fileBlobs c)) (w, wd_scan (files w), []) of
        (w1, wdFiles, warns) \<Rightarrow> (fold (remove_stale c) wdFiles w1, warns))"

subsection \<open>The status classifier\<close>

record StagedChanges =
  added :: "string list"
  modified :: "string list"
  deleted :: "string list"

record WorkingDirChanges =
  wd_modified :: "string list"
  wd_deleted :: "string list"
  untracked :: "string list"

definition tree_of :: "Commit option \<Rightarrow> (string \<times> string) list" where
  "tree_of headCommit = (case headCommit of None \<Rightarrow> [] | Some c \<Rightarrow> fileBlobs c)"

definition getUnstagedChanges ::
  "(string \<Rightarrow> 64 word) \<Rightarrow> (string \<times> node) list \<Rightarrow> (string \<times> string) list \<Rightarrow> Commit option
     \<Rightarrow> WorkingDirChanges" where
  "getUnstagedChanges hasher fs staging headCommit =
     \<lparr>wd_modified =
        concat (map (\<lambda>f.
          if count_key staging f
          then (if at_key staging f \<noteq> hashFileContent hasher (readFileContent fs f)
                then [f @ '' (not staged - staged version differs from WD)''] else [])
          else if count_key (tree_of headCommit) f
          then (if at_key (tree_of headCommit) f \<noteq> hashFileContent hasher (readFileContent fs f)
                then [f] else [])
          else []) (wd_scan fs)),
      wd_deleted =
        [f. (f, b) \<leftarrow> entries (tree_of headCommit),
            f \<notin> set (wd_scan fs) \<and> \<not> count_key staging f],
      untracked =
        [f \<leftarrow> wd_scan fs. \<not> count_key staging f \<and> \<not> count_key (tree_of headCommit) f]\<rparr>"

definition getStagedChanges ::
  "(string \<times> node) list \<Rightarrow> (string \<times> string) list \<Rightarrow> Commit option \<Rightarrow> StagedChanges" where
  "getStagedChanges fs staging headCommit =
     \<lparr>added = [f. (f, b) \<leftarrow> entries staging, \<not> count_key (tree_of headCommit) f],
      modified = [f. (f, b) \<leftarrow> entries staging, count_key (tree_of headCommit) f,
                    at_key (tree_of headCommit) f \<noteq> b],
      deleted = [f. (f, b) \<leftarrow> entries (tree_of headCommit),
                   \<not> count_key staging f, \<not> fs_exists fs f]\<rparr>"

text \<open>The lines every operation runs before it classifies: the commit HEAD names is read
  into the cache when it is not there, and \<open>currentHeadCommit\<close> points at the cache entry.\<close>

definition ensureHeadLoaded :: "world \<Rightarrow> world" where
  "ensureHeadLoaded w =
     (if headCommitHash w \<noteq> [] \<and> \<not> count_key (commits w) (headCommitHash w)
      then w\<lparr>commits := AList.update (headCommitHash w)
                 (loadCommitFromFile (files w) (headCommitHash w)) (commits w)\<rparr>
      else w)"

definition currentHeadCommit :: "world \<Rightarrow> Commit option" where
  "currentHeadCommit w =
     (if headCommitHash w = [] then None else map_of (commits w) (headCommitHash w))"

definition commit_at :: "(string \<times> Commit) list \<Rightarrow> string \<Rightarrow> Commit" where
  "commit_at cs h = (case map_of cs h of Some c \<Rightarrow> c | None \<Rightarrow> empty_commit)"

definition staged_clean :: "StagedChanges \<Rightarrow> bool" where
  "staged_clean st = (added st = [] \<and> modified st = [] \<and> deleted st = [])"

definition unstaged_clean :: "WorkingDirChanges \<Rightarrow> bool" where
  "unstaged_clean u = (wd_modified u = [] \<and> wd_deleted u = [] \<and> untracked u = [])"

subsection \<open>Public operations\<close>

definition init :: "world \<Rightarrow> outcome \<times> world" where
  "init w =
     (if fs_exists (files w) ''.minigit'' then (AlreadyInitialized, w)
      else
        (case create_directory ''.minigit'' w of
           None \<Rightarrow> (InitFailed, w)
         | Some w1 \<Rightarrow>
        (case create_directory ''.minigit/objects'' w1 of
           None \<Rightarrow> (InitFailed, w1)
         | Some w2 \<Rightarrow>
        (case create_directory ''.minigit/commits'' w2 of
           None \<Rightarrow> (InitFailed, w2)
         | Some w3 \<Rightarrow>
        (case create_directories ''.minigit/refs/heads'' w3 of
           (False, w4) \<Rightarrow> (InitFailed, w4)
         | (True, w4) \<Rightarrow>
        (case saveHeadAndBranchRefs
                (w4\<lparr>headBranch := ''master'', headCommitHash := [],
                    branches := AList.update ''master'' [] (branches w4)\<rparr>) of
           (False, w5) \<Rightarrow> (InitFailed, w5)
         | (True, w5) \<Rightarrow> (Initialized, w5)))))))"

definition add :: "(string \<Rightarrow> 64 word) \<Rightarrow> string \<Rightarrow> world \<Rightarrow> outcome \<times> world" where
  "add hasher filename w =
     (if \<not> fs_exists (files w) ''.minigit'' then (NotARepository, w)
      else if \<not> fs_exists (files w) filename then (NoSuchPath, w)
      else if \<not> is_regular_file (files w) filename then (NotARegularFile, w)
      else if readFileContent (files w) filename = [] \<and>
              file_at (files w) filename \<noteq> Some [] then (UnreadableFile, w)
      else if count_key (stagingArea w) filename \<and>
              at_key (stagingArea w) filename =
                hashFileContent hasher (readFileContent (files w) filename)
        then (AlreadyStaged, w)
      else (Added (hashFileContent hasher (readFileContent (files w) filename)),
            saveBlob (hashFileContent hasher (readFileContent (files w) filename))
              (readFileContent (files w) filename)
              (w\<lparr>stagingArea :=
                   AList.update filename
                     (hashFileContent hasher (readFileContent (files w) filename))
                     (stagingArea w)\<rparr>)))"

text \<open>The snapshot of the new commit: the parent's tree, every staged entry written over
  it, every staged deletion erased.\<close>

definition new_tree :: "world \<Rightarrow> string list \<Rightarrow> (string \<times> string) list" where
  "new_tree w dels =
     fold AList.delete dels
       (fold (\<lambda>(f, b). AList.update f b) (entries (stagingArea w))
          (if headCommitHash w \<noteq> [] then fileBlobs (commit_at (commits w) (headCommitHash w))
           else []))"

definition commit_digest ::
  "(string \<Rightarrow> 64 word) \<Rightarrow> string \<Rightarrow> string \<Rightarrow> string list \<Rightarrow> (string \<times> string) list \<Rightarrow> string" where
  "commit_digest hasher msg ts parents tree =
     hashFileContent hasher
       (msg @ ts @ concat parents @ concat (map (\<lambda>(f, b). f @ b) (entries tree)))"

definition new_commit :: "(string \<Rightarrow> 64 word) \<Rightarrow> string \<Rightarrow> string \<Rightarrow> world \<Rightarrow> string list \<Rightarrow> Commit" where
  "new_commit hasher now msg w dels =
     \<lparr>hash = commit_digest hasher msg now
               (if headCommitHash w \<noteq> [] then [headCommitHash w] else []) (new_tree w dels),
      message = msg,
      timestamp = now,
      parentHashes = (if headCommitHash w \<noteq> [] then [headCommitHash w] else []),
      fileBlobs = new_tree w dels\<rparr>"

text \<open>Lines 603 to 608 of \<open>commit\<close>: the new commit enters the cache, HEAD moves to it, and
  so does the current branch when HEAD is attached.\<close>

definition record_commit :: "Commit \<Rightarrow> world \<Rightarrow> world" where
  "record_commit newCommit w =
     w\<lparr>commits := AList.update (hash newCommit) newCommit (commits w),
       headCommitHash := hash newCommit,
       branches :=
         (if headBranch w \<noteq> []
          then AList.update (headBranch w) (hash newCommit) (branches w)
          else branches w)\<rparr>"

definition commit :: "(string \<Rightarrow> 64 word) \<Rightarrow> string \<Rightarrow> string \<Rightarrow> world \<Rightarrow> outcome \<times> world" where
  "commit hasher now msg w =
     (if \<not> fs_exists (files w) ''.minigit'' then (NotARepository, w)
      else
        let w1 = ensureHeadLoaded w;
            staged = getStagedChanges (files w1) (stagingArea w1) (currentHeadCommit w1)
        in if staged_clean staged then (NoEffectiveChanges, w1\<lparr>stagingArea := []\<rparr>)
           else
             let newCommit = new_commit hasher now msg w1 (deleted staged)
             in (case saveHeadAndBranchRefs (record_commit newCommit w1) of
                   (False, w3) \<Rightarrow> (Crashed, w3)
                 | (True, w3) \<Rightarrow>
                     (Committed (hash newCommit),
                      (writeCommitToFile newCommit w3)\<lparr>stagingArea := []\<rparr>)))"

definition branch :: "string \<Rightarrow> world \<Rightarrow> outcome \<times> world" where
  "branch name w =
     (if \<not> fs_exists (files w) ''.minigit'' then (NotARepository, w)
      else if headCommitHash w = [] then (NoCommits, w)
      else if count_key (branches w) name then (BranchExists, w)
      else (case saveHeadAndBranchRefs
                   (w\<lparr>branches := AList.update name (headCommitHash w) (branches w)\<rparr>) of
              (False, w') \<Rightarrow> (Crashed, w')
            | (True, w') \<Rightarrow> (Created, w')))"

text \<open>\<open>status\<close> prints the classification; the only member it touches is the cache.\<close>

definition status :: "world \<Rightarrow> world" where
  "status w = (if \<not> fs_exists (files w) ''.minigit'' then w else ensureHeadLoaded w)"

text \<open>Lines 713 to 734 of \<open>checkout\<close>: the pair \<open>(targetCommitHash, newHeadBranch)\<close>.\<close>

definition resolve_target :: "world \<Rightarrow> string \<Rightarrow> string \<times> string" where
  "resolve_target w target =
     (if count_key (branches w) target then (at_key (branches w) target, target)
      else if count_key (commits w) target then (target, [])
      else (case find (\<lambda>k. starts_with target k \<and> length target \<ge> 4)
                   (map fst (entries (commits w))) of
              Some k \<Rightarrow> (k, [])
            | None \<Rightarrow> ([], [])))"

definition checkout :: "(string \<Rightarrow> 64 word) \<Rightarrow> string \<Rightarrow> world \<Rightarrow> outcome \<times> world" where
  "checkout hasher target w =
     (if \<not> fs_exists (files w) ''.minigit'' then (NotARepository, w)
      else
        let w1 = ensureHeadLoaded w in
        if \<not> staged_clean (getStagedChanges (files w1) (stagingArea w1) (currentHeadCommit w1)) \<or>
           \<not> unstaged_clean
               (getUnstagedChanges hasher (files w1) (stagingArea w1) (currentHeadCommit w1))
        then (WorkingDirDirty, status w1)
        else
          (case resolve_target w1 target of (targetCommitHash, newHeadBranch) \<Rightarrow>
             if targetCommitHash = [] \<and> newHeadBranch \<noteq> [] then
               (if headBranch w1 = newHeadBranch then (AlreadyOn, w1)
                else
                  (case saveHeadAndBranchRefs
                          ((fold remove_file (wd_scan (files w1)) w1)
                             \<lparr>headBranch := newHeadBranch, headCommitHash := targetCommitHash\<rparr>) of
                     (False, w2) \<Rightarrow> (Crashed, w2)
                   | (True, w2) \<Rightarrow> (SwitchedToEmpty, w2\<lparr>stagingArea := []\<rparr>)))
             else if targetCommitHash = [] then (UnknownTarget, w1)
             else
               let w2 = (if \<not> count_key (commits w1) targetCommitHash
                         then w1\<lparr>commits := AList.update targetCommitHash
                                    (loadCommitFromFile (files w1) targetCommitHash) (commits w1)\<rparr>
                         else w1)
               in if \<not> count_key (commits w1) targetCommitHash \<and>
                     hash (commit_at (commits w2) targetCommitHash) = []
                  then (CorruptCommit, w2)
                  else if headCommitHash w2 = targetCommitHash \<and>
                          ((newHeadBranch = [] \<and> headBranch w2 = []) \<or> newHeadBranch = headBranch w2)
                  then (AlreadyOn, w2)
                  else
                    (case saveHeadAndBranchRefs
                            (w2\<lparr>headBranch := newHeadBranch, headCommitHash := targetCommitHash\<rparr>) of
                       (False, w3) \<Rightarrow> (Crashed, w3)
                     | (True, w3) \<Rightarrow>
                         (case populateWorkingDirectory
                                 (commit_at (commits w3) targetCommitHash) w3 of
                            (w4, warns) \<Rightarrow> (CheckedOut warns, w4\<lparr>stagingArea := []\<rparr>)))))"


subsection \<open>Sample states\<close>

text \<open>A stand-in for the library's string hash, used to run the model on concrete inputs.\<close>

definition sample_hasher :: "string \<Rightarrow> 64 word" where
  "sample_hasher s = fold (\<lambda>c h. h * 31 + of_nat (of_char c)) s 0"

text \<open>The repository after \<open>init\<close>, \<open>add file.txt\<close> and a first \<open>commit\<close>, as a new process
  loads it.\<close>

definition files_first :: "(string \<times> node) list" where
  "files_first =
    [(''file.txt'', File ''Line 1\<newline>''), (''.minigit'', Dir),
     (''.minigit/objects'', Dir), (''.minigit/commits'', Dir),
     (''.minigit/refs'', Dir), (''.minigit/refs/heads'', Dir),
     (''.minigit/HEAD'', File ''ref: refs/heads/master\<newline>''),
     (''.minigit/objects/70560969093'', File ''Line 1\<newline>''),
     (''.minigit/refs/heads/master'', File ''10026310142314928280\<newline>''),
     (''.minigit/commits/10026310142314928280'',
      File (''message:first\<newline>timestamp:2025-01-01 10:00:00\<newline>parents:\<newline>'' @
            ''files:\<newline>file.txt:70560969093\<newline>''))]"

definition first_commit :: Commit where
  "first_commit =
     \<lparr>hash = ''10026310142314928280'', message = ''first'',
      timestamp = ''2025-01-01 10:00:00'', parentHashes = [],
      fileBlobs = [(''file.txt'', ''70560969093'')]\<rparr>"

definition w_first :: world where
  "w_first =
     \<lparr>files = files_first, journal = [],
      commits = [(''10026310142314928280'', first_commit)],
      branches = [(''master'', ''10026310142314928280'')], stagingArea = [],
      headBranch = ''master'', headCommitHash = ''10026310142314928280''\<rparr>"

text \<open>The same with a new file \<open>notes.txt\<close> in the working root, untracked and then staged.\<close>

definition w_untracked :: world where
  "w_untracked = w_first\<lparr>files := (''notes.txt'', File ''todo\<newline>'') # files_first\<rparr>"

definition w_staged :: world where
  "w_staged =
     w_first\<lparr>files := (''notes.txt'', File ''todo\<newline>'') # files_first @
                        [(''.minigit/objects/110534788'', File ''todo\<newline>'')],
             stagingArea := [(''notes.txt'', ''110534788'')]\<rparr>"

text \<open>A repository whose two commit digests share their first four characters.\<close>

definition w_shared_prefix :: world where
  "w_shared_prefix =
     w_first\<lparr>files := files_first @
                [(''.minigit/commits/10029999999999999999'',
                  File (''message:second\<newline>timestamp:2025-01-02 09:30:00\<newline>'' @
                        ''parents:10026310142314928280 \<newline>'' @
                        ''files:\<newline>file.txt:70560969093\<newline>''))],
             commits := [(''10026310142314928280'', first_commit),
                         (''10029999999999999999'',
                          first_commit\<lparr>hash := ''10029999999999999999'', message := ''second'',
                                        timestamp := ''2025-01-02 09:30:00'',
                                        parentHashes := [''10026310142314928280'']\<rparr>)]\<rparr>"

text \<open>Two files staged in a new repository, in the two possible orders of the container.\<close>

definition w_ab :: world where
  "w_ab =
     (fresh [(''a.txt'', File ''x''), (''b.txt'', File ''y''), (''.minigit'', Dir),
             (''.minigit/objects'', Dir), (''.minigit/commits'', Dir),
             (''.minigit/refs'', Dir), (''.minigit/refs/heads'', Dir),
             (''.minigit/HEAD'', File ''ref: refs/heads/master\<newline>''),
             (''.minigit/objects/120'', File ''x''),
             (''.minigit/objects/121'', File ''y'')] [])
       \<lparr>stagingArea := [(''a.txt'', ''120''), (''b.txt'', ''121'')]\<rparr>"

definition w_ba :: world where
  "w_ba = w_ab\<lparr>stagingArea := [(''b.txt'', ''121''), (''a.txt'', ''120'')]\<rparr>"

text \<open>Notions for the order of writes and for references that name no commit record.\<close>

fun is_mkdir :: "fs_op \<Rightarrow> bool" where
  "is_mkdir (Mkdir p) = True"
| "is_mkdir op = False"

definition ref_dangling :: "(string \<times> node) list \<Rightarrow> string \<Rightarrow> bool" where
  "ref_dangling fs b =
     (case file_at fs (''.minigit/refs/heads/'' @ b) of
        None \<Rightarrow> False
      | Some txt \<Rightarrow>
          first_line txt \<noteq> [] \<and> \<not> fs_exists fs (''.minigit/commits/'' @ first_line txt))"


text \<open>An object store holding one blob, the empty one.\<close>

definition w_blobs :: world where
  "w_blobs = fresh [(''.minigit'', Dir), (''.minigit/objects'', Dir),
                    (''.minigit/objects/0'', File [])] []"

text \<open>The second state is reached from the first by the given file operations, in order.\<close>

definition trace :: "world \<Rightarrow> world \<Rightarrow> fs_op list \<Rightarrow> bool" where
  "trace w w' ops = (journal w' = journal w @ ops \<and> files w' = replay ops (files w))"

section \<open>Properties\<close>

subsection \<open>Auxiliary facts\<close>

lemma ensureHeadLoaded_frame:
  "files (ensureHeadLoaded w) = files w"
  "journal (ensureHeadLoaded w) = journal w"
  "branches (ensureHeadLoaded w) = branches w"
  "stagingArea (ensureHeadLoaded w) = stagingArea w"
  "headBranch (ensureHeadLoaded w) = headBranch w"
  "headCommitHash (ensureHeadLoaded w) = headCommitHash w"
  by (simp_all add: ensureHeadLoaded_def)

lemma ensureHeadLoaded_other:
  "h \<noteq> headCommitHash w \<Longrightarrow> map_of (commits (ensureHeadLoaded w)) h = map_of (commits w) h"
  by (simp add: ensureHeadLoaded_def AList.update_conv')

lemma ensureHeadLoaded_present:
  "headCommitHash w \<noteq> [] \<Longrightarrow> count_key (commits (ensureHeadLoaded w)) (headCommitHash w)"
  by (simp add: ensureHeadLoaded_def count_key_def AList.update_conv')

lemma map_of_fold_update:
  "map_of (fold (\<lambda>(f, b). AList.update f b) xs base) = map_of base ++ map_of (rev xs)"
proof (induction xs arbitrary: base)
  case Nil
  then show ?case by simp
next
  case (Cons x xs)
  obtain k v where x: "x = (k, v)" by (cases x)
  have "map_of (fold (\<lambda>(f, b). AList.update f b) (x # xs) base)
        = map_of (AList.update k v base) ++ map_of (rev xs)"
    using Cons.IH [of "AList.update k v base"] x by simp
  also have "\<dots> = map_of base ++ map_of (rev (x # xs))"
    by (simp add: x AList.update_conv' map_add_def fun_eq_iff split: option.splits)
  finally show ?case .
qed

lemma map_of_rev_distinct:
  "distinct (map fst xs) \<Longrightarrow> map_of (rev xs) = map_of xs"
proof (induction xs)
  case Nil
  then show ?case by simp
next
  case (Cons x xs)
  obtain k v where x: "x = (k, v)" by (cases x)
  from Cons.prems x have notin: "k \<notin> fst ` set xs" by simp
  then have "map_of xs k = None" by (simp add: map_of_eq_None_iff)
  with Cons show ?case
    by (auto simp: x map_add_def fun_eq_iff split: option.splits)
qed

lemma map_of_fold_entries:
  "map_of (fold (\<lambda>(f, b). AList.update f b) (entries st) base) = map_of base ++ map_of st"
  by (simp add: map_of_fold_update entries_def map_of_rev_distinct AList.map_of_clearjunk)

lemma map_of_fold_delete:
  "map_of (fold AList.delete dels t) = map_of t |` (- set dels)"
proof (induction dels arbitrary: t)
  case Nil
  then show ?case by simp
next
  case (Cons d dels)
  show ?case
    by (auto simp: Cons.IH AList.delete_conv' restrict_map_def fun_eq_iff)
qed

lemma tree_of_head:
  "tree_of (currentHeadCommit (ensureHeadLoaded w)) =
     (if headCommitHash w \<noteq> []
      then fileBlobs (commit_at (commits (ensureHeadLoaded w)) (headCommitHash w)) else [])"
  using ensureHeadLoaded_present [of w]
  by (auto simp: tree_of_def currentHeadCommit_def commit_at_def count_key_def
        ensureHeadLoaded_frame split: option.splits)

lemma new_tree_map:
  "map_of (new_tree (ensureHeadLoaded w) dels) =
     (map_of (tree_of (currentHeadCommit (ensureHeadLoaded w))) ++ map_of (stagingArea w))
       |` (- set dels)"
  by (simp add: new_tree_def map_of_fold_delete map_of_fold_entries tree_of_head
        ensureHeadLoaded_frame)

lemma save_head_frame:
  "commits (save_head w) = commits w" "branches (save_head w) = branches w"
  "stagingArea (save_head w) = stagingArea w" "headBranch (save_head w) = headBranch w"
  "headCommitHash (save_head w) = headCommitHash w"
  by (auto simp: save_head_def write_file_def split: option.splits)

lemma write_file_frame:
  assumes "write_file p c w = Some w'"
  shows "commits w' = commits w" "branches w' = branches w"
  "stagingArea w' = stagingArea w" "headBranch w' = headBranch w"
  "headCommitHash w' = headCommitHash w"
  using assms by (auto simp: write_file_def split: if_splits)

lemma create_directory_frame:
  assumes "create_directory p w = Some w'"
  shows "commits w' = commits w" "branches w' = branches w"
  "stagingArea w' = stagingArea w" "headBranch w' = headBranch w"
  "headCommitHash w' = headCommitHash w"
  using assms by (auto simp: create_directory_def split: if_splits option.splits node.splits)

lemma mkdirs_frame:
  "commits (snd (mkdirs qs w)) = commits w \<and> branches (snd (mkdirs qs w)) = branches w \<and>
   stagingArea (snd (mkdirs qs w)) = stagingArea w \<and> headBranch (snd (mkdirs qs w)) = headBranch w \<and>
   headCommitHash (snd (mkdirs qs w)) = headCommitHash w"
proof (induction qs arbitrary: w)
  case Nil
  then show ?case by simp
next
  case (Cons q qs)
  show ?case
  proof (cases "create_directory q w")
    case None
    then show ?thesis by simp
  next
    case (Some w')
    with Cons.IH [of w'] create_directory_frame [OF Some] show ?thesis by simp
  qed
qed

lemma saveHeadAndBranchRefs_frame:
  "commits (snd (saveHeadAndBranchRefs w)) = commits w \<and>
   branches (snd (saveHeadAndBranchRefs w)) = branches w \<and>
   stagingArea (snd (saveHeadAndBranchRefs w)) = stagingArea w \<and>
   headBranch (snd (saveHeadAndBranchRefs w)) = headBranch w \<and>
   headCommitHash (snd (saveHeadAndBranchRefs w)) = headCommitHash w"
proof -
  let ?m = "create_directories ''.minigit/refs/heads'' w"
  have m: "commits (snd ?m) = commits w \<and> branches (snd ?m) = branches w \<and>
   stagingArea (snd ?m) = stagingArea w \<and> headBranch (snd ?m) = headBranch w \<and>
   headCommitHash (snd ?m) = headCommitHash w"
    unfolding create_directories_def by (rule mkdirs_frame)
  show ?thesis
    using m
    by (auto simp: saveHeadAndBranchRefs_def save_head_frame
          split: prod.splits bool.splits option.splits dest: write_file_frame)
qed

lemma writeCommitToFile_frame:
  "commits (writeCommitToFile c w) = commits w" "branches (writeCommitToFile c w) = branches w"
  "headBranch (writeCommitToFile c w) = headBranch w"
  "headCommitHash (writeCommitToFile c w) = headCommitHash w"
  by (auto simp: writeCommitToFile_def write_file_def split: option.splits)

lemma ensureHeadLoaded_idem: "ensureHeadLoaded (ensureHeadLoaded w) = ensureHeadLoaded w"
  by (simp add: ensureHeadLoaded_def count_key_def AList.update_conv')

lemma status_loaded:
  "status (ensureHeadLoaded w) = ensureHeadLoaded w"
  by (simp add: status_def ensureHeadLoaded_idem)

lemma ensureHeadLoaded_cached:
  "count_key (commits w) (headCommitHash w) \<Longrightarrow> ensureHeadLoaded w = w"
  by (simp add: ensureHeadLoaded_def)

lemma w_first_loaded: "ensureHeadLoaded w_first = w_first"
  by (rule ensureHeadLoaded_cached) (simp add: w_first_def count_key_def)

lemma w_untracked_loaded: "ensureHeadLoaded w_untracked = w_untracked"
  by (rule ensureHeadLoaded_cached) (simp add: w_untracked_def w_first_def count_key_def)

lemma w_staged_loaded: "ensureHeadLoaded w_staged = w_staged"
  by (rule ensureHeadLoaded_cached) (simp add: w_staged_def w_first_def count_key_def)

lemma wd_scan_untracked: "wd_scan (files w_untracked) = [''notes.txt'', ''file.txt'']"
  by (simp add: w_untracked_def files_first_def wd_scan_def dir_files_def entries_def
        starts_with_def)

lemma write_file_other:
  assumes "write_file p c w = Some w'" and "q \<noteq> p"
  shows "map_of (files w') q = map_of (files w) q"
  using assms by (auto simp: write_file_def AList.update_conv' split: if_splits)

lemma create_directory_file_at:
  assumes "create_directory p w = Some w'"
  shows "file_at (files w') q = file_at (files w) q"
  using assms
  by (auto simp: create_directory_def file_at_def AList.update_conv'
        split: if_splits option.splits node.splits)

lemma mkdirs_file_at:
  "file_at (files (snd (mkdirs qs w))) q = file_at (files w) q"
proof (induction qs arbitrary: w)
  case Nil
  then show ?case by simp
next
  case (Cons d qs)
  show ?case
  proof (cases "create_directory d w")
    case None
    then show ?thesis by simp
  next
    case (Some w')
    with Cons.IH [of w'] create_directory_file_at [OF Some, of q] show ?thesis by simp
  qed
qed

lemma save_head_file_at:
  "q \<noteq> ''.minigit/HEAD'' \<Longrightarrow> file_at (files (save_head w)) q = file_at (files w) q"
  by (auto simp: save_head_def file_at_def split: option.splits dest: write_file_other)

lemma saveHeadAndBranchRefs_file_at:
  assumes "q \<noteq> ''.minigit/HEAD''" and "q \<noteq> ''.minigit/refs/heads/'' @ headBranch w"
  shows "file_at (files (snd (saveHeadAndBranchRefs w))) q = file_at (files w) q"
proof (cases "headBranch w \<noteq> [] \<and> headCommitHash w \<noteq> []")
  case False
  then show ?thesis
    using assms(1) by (auto simp: saveHeadAndBranchRefs_def save_head_file_at)
next
  case True
  obtain b w1 where m: "create_directories ''.minigit/refs/heads'' w = (b, w1)"
    by (cases "create_directories ''.minigit/refs/heads'' w")
  have w1: "file_at (files w1) q = file_at (files w) q"
    using mkdirs_file_at [of "dir_prefixes ''.minigit/refs/heads''" w q] m
    by (simp add: create_directories_def)
  show ?thesis
  proof (cases "write_file (''.minigit/refs/heads/'' @ headBranch w) (headCommitHash w @ ''\<newline>'') w1")
    case None
    then show ?thesis using True m w1 by (simp add: saveHeadAndBranchRefs_def split: bool.splits)
  next
    case (Some w2)
    have "file_at (files w2) q = file_at (files w1) q"
      using write_file_other [OF Some assms(2)] by (simp add: file_at_def)
    then show ?thesis
      using True m w1 Some assms(1)
      by (simp add: saveHeadAndBranchRefs_def save_head_file_at split: bool.splits)
  qed
qed

lemma update_absent: "map_of al k = None \<Longrightarrow> AList.update k v al = al @ [(k, v)]"
  by (induction al) (auto split: if_splits)

lemma write_file_same:
  assumes "write_file p c w = Some w'"
  shows "file_at (files w') p = Some c"
  using assms by (auto simp: write_file_def file_at_def AList.update_conv' split: if_splits)

lemma save_head_head:
  "file_at (files (save_head w)) ''.minigit/HEAD'' = file_at (files w) ''.minigit/HEAD'' \<or>
   file_at (files (save_head w)) ''.minigit/HEAD'' = Some (head_text w)"
  by (auto simp: save_head_def split: option.splits dest: write_file_same)

lemma save_head_text: "write_file p c w = Some w' \<Longrightarrow> head_text w' = head_text w"
  by (auto simp: head_text_def dest: write_file_frame)

lemma mkdirs_head_text: "head_text (snd (mkdirs qs w)) = head_text w"
  using mkdirs_frame [of qs w] by (simp add: head_text_def)

lemma saveHeadAndBranchRefs_rewrites:
  "(file_at (files (snd (saveHeadAndBranchRefs w))) ''.minigit/HEAD'' =
      file_at (files w) ''.minigit/HEAD'' \<or>
    file_at (files (snd (saveHeadAndBranchRefs w))) ''.minigit/HEAD'' = Some (head_text w)) \<and>
   (file_at (files (snd (saveHeadAndBranchRefs w))) (''.minigit/refs/heads/'' @ headBranch w) =
      file_at (files w) (''.minigit/refs/heads/'' @ headBranch w) \<or>
    file_at (files (snd (saveHeadAndBranchRefs w))) (''.minigit/refs/heads/'' @ headBranch w) =
      Some (headCommitHash w @ ''\<newline>''))"
proof (cases "headBranch w \<noteq> [] \<and> headCommitHash w \<noteq> []")
  case False
  have "file_at (files (save_head w)) (''.minigit/refs/heads/'' @ headBranch w) =
        file_at (files w) (''.minigit/refs/heads/'' @ headBranch w)"
    by (rule save_head_file_at) simp
  then show ?thesis
    using False save_head_head [of w] by (auto simp: saveHeadAndBranchRefs_def)
next
  case True
  let ?r = "''.minigit/refs/heads/'' @ headBranch w"
  obtain b w1 where m: "create_directories ''.minigit/refs/heads'' w = (b, w1)"
    by (cases "create_directories ''.minigit/refs/heads'' w")
  have w1: "file_at (files w1) q = file_at (files w) q" for q
    using mkdirs_file_at [of "dir_prefixes ''.minigit/refs/heads''" w q] m
    by (simp add: create_directories_def)
  have t1: "head_text w1 = head_text w"
    using mkdirs_head_text [of "dir_prefixes ''.minigit/refs/heads''" w] m
    by (simp add: create_directories_def)
  show ?thesis
  proof (cases "write_file ?r (headCommitHash w @ ''\<newline>'') w1")
    case None
    then show ?thesis using True m w1 by (simp add: saveHeadAndBranchRefs_def split: bool.splits)
  next
    case (Some w2)
    have h2: "file_at (files w2) ''.minigit/HEAD'' = file_at (files w) ''.minigit/HEAD''"
      using write_file_other [OF Some, of "''.minigit/HEAD''"] w1 [of "''.minigit/HEAD''"]
      by (simp add: file_at_def)
    have r2: "file_at (files (save_head w2)) ?r = Some (headCommitHash w @ ''\<newline>'')"
      using write_file_same [OF Some] save_head_file_at [of ?r w2] by simp
    have t2: "head_text w2 = head_text w"
      using save_head_text [OF Some] t1 by simp
    show ?thesis
      using True m Some h2 r2 t2 save_head_head [of w2] w1 [of "''.minigit/HEAD''"] w1 [of ?r]
      by (auto simp: saveHeadAndBranchRefs_def split: bool.splits)
  qed
qed

lemma remove_file_frame:
  "commits (remove_file p w) = commits w" "branches (remove_file p w) = branches w"
  "stagingArea (remove_file p w) = stagingArea w" "headBranch (remove_file p w) = headBranch w"
  "headCommitHash (remove_file p w) = headCommitHash w"
  by (simp_all add: remove_file_def)

lemma materialize_head:
  "headBranch (fst (materialize e st)) = headBranch (fst st) \<and>
   headCommitHash (fst (materialize e st)) = headCommitHash (fst st)"
  by (cases e; cases st)
     (auto simp: materialize_def split: option.splits dest: write_file_frame)

lemma fold_materialize_head:
  "headBranch (fst (fold materialize es st)) = headBranch (fst st) \<and>
   headCommitHash (fst (fold materialize es st)) = headCommitHash (fst st)"
  by (induction es arbitrary: st) (simp_all add: materialize_head)

lemma fold_remove_stale_head:
  "headBranch (fold (remove_stale c) fs w) = headBranch w \<and>
   headCommitHash (fold (remove_stale c) fs w) = headCommitHash w"
  by (induction fs arbitrary: w) (simp_all add: remove_stale_def remove_file_frame)

lemma populateWorkingDirectory_head:
  "headBranch (fst (populateWorkingDirectory c w)) = headBranch w \<and>
   headCommitHash (fst (populateWorkingDirectory c w)) = headCommitHash w"
  using fold_materialize_head [of "entries (fileBlobs c)" "(w, wd_scan (files w), [])"]
  by (auto simp: populateWorkingDirectory_def fold_remove_stale_head split: prod.splits)

lemma find_key_present:
  assumes "find P (map fst (entries cs)) = Some k"
  shows "count_key cs k" and "P k"
proof -
  from assms have "k \<in> set (map fst (entries cs))" and pk: "P k"
    by (auto simp: find_Some_iff)
  then have "k \<in> fst ` set cs"
    by (simp add: entries_def AList.dom_clearjunk)
  then show "count_key cs k"
    by (simp add: count_key_def map_of_eq_None_iff)
  show "P k" by (rule pk)
qed

lemma find_key_none:
  "find P (map fst (entries cs)) = None \<longleftrightarrow> (\<forall>k. count_key cs k \<longrightarrow> \<not> P k)"
proof -
  have "set (map fst (entries cs)) = fst ` set cs"
    by (simp add: entries_def AList.dom_clearjunk)
  then show ?thesis
    by (auto simp: find_None_iff count_key_def map_of_eq_None_iff)
qed

lemma hash_line1: "hashFileContent sample_hasher ''Line 1\<newline>'' = ''70560969093''"
  by (simp add: hashFileContent_def sample_hasher_def to_string.simps digit_def)

lemma w_shared_prefix_loaded: "ensureHeadLoaded w_shared_prefix = w_shared_prefix"
  by (rule ensureHeadLoaded_cached) (simp add: w_shared_prefix_def w_first_def count_key_def)

lemma wd_scan_shared: "wd_scan (files w_shared_prefix) = [''file.txt'']"
  by (simp add: w_shared_prefix_def files_first_def wd_scan_def dir_files_def entries_def
        starts_with_def)

lemma head_shared: "currentHeadCommit w_shared_prefix = Some first_commit"
  by (simp add: currentHeadCommit_def w_shared_prefix_def w_first_def)

lemma staged_shared:
  "staged_clean (getStagedChanges (files w_shared_prefix) (stagingArea w_shared_prefix)
     (currentHeadCommit (ensureHeadLoaded w_shared_prefix)))"
  by (simp add: w_shared_prefix_loaded head_shared)
     (simp add: staged_clean_def getStagedChanges_def w_shared_prefix_def w_first_def
        first_commit_def files_first_def tree_of_def count_key_def entries_def fs_exists_def)

lemma unstaged_shared:
  "unstaged_clean (getUnstagedChanges sample_hasher (files w_shared_prefix)
     (stagingArea w_shared_prefix) (currentHeadCommit (ensureHeadLoaded w_shared_prefix)))"
proof -
  have rd: "readFileContent (files w_shared_prefix) ''file.txt'' = ''Line 1\<newline>''"
    by (simp add: readFileContent_def w_shared_prefix_def files_first_def)
  show ?thesis
    by (simp add: w_shared_prefix_loaded head_shared unstaged_clean_def getUnstagedChanges_def
          wd_scan_shared rd hash_line1)
       (simp add: w_shared_prefix_def w_first_def first_commit_def tree_of_def count_key_def
          at_key_def entries_def)
qed

lemma resolve_shared:
  "resolve_target w_shared_prefix ''1002'' = (''10026310142314928280'', [])"
  by (simp add: resolve_target_def w_shared_prefix_def w_first_def count_key_def entries_def
        starts_with_def)

lemmas run_defs = commit_def Let_def ensureHeadLoaded_def getStagedChanges_def
        new_commit_def new_tree_def commit_digest_def hashFileContent_def sample_hasher_def
        to_string.simps digit_def record_commit_def saveHeadAndBranchRefs_def
        create_directories_def dir_prefixes_def create_directory_def write_file_def
        can_open_out_def parent_path_def save_head_def head_text_def writeCommitToFile_def
        serialize_def fresh_def entries_def count_key_def fs_exists_def
        staged_clean_def tree_of_def currentHeadCommit_def commit_at_def

lemma commit_created:
  assumes "fst (commit hasher now msg w) = Committed h"
    and "map_of (commits (snd (commit hasher now msg w))) h = Some c"
  shows "message c = msg \<and> timestamp c = now \<and> hash c = h \<and>
         h = commit_digest hasher (message c) (timestamp c) (parentHashes c) (fileBlobs c)"
proof -
  let ?w1 = "ensureHeadLoaded w"
  let ?st = "getStagedChanges (files w) (stagingArea w) (currentHeadCommit ?w1)"
  define n where "n = new_commit hasher now msg ?w1 (deleted ?st)"
  obtain b w3 where sv: "saveHeadAndBranchRefs (record_commit n ?w1) = (b, w3)"
    by (cases "saveHeadAndBranchRefs (record_commit n ?w1)")
  from assms(1) have repo: "fs_exists (files w) ''.minigit''" and dirty: "\<not> staged_clean ?st"
    by (auto simp: commit_def Let_def ensureHeadLoaded_frame split: if_splits)
  have run: "commit hasher now msg w =
      (if b then (Committed (hash n), (writeCommitToFile n w3)\<lparr>stagingArea := []\<rparr>)
       else (Crashed, w3))"
    using repo dirty sv
    by (simp add: commit_def Let_def ensureHeadLoaded_frame n_def [symmetric])
  from assms(1) have b: b and h: "h = hash n"
    by (auto simp: run split: if_splits)
  have "commits (snd (commit hasher now msg w)) = commits (record_commit n ?w1)"
    using saveHeadAndBranchRefs_frame [of "record_commit n ?w1"] sv b
    by (simp add: run writeCommitToFile_frame)
  then have "map_of (commits (snd (commit hasher now msg w))) h = Some n"
    by (simp add: h record_commit_def AList.update_conv')
  with assms(2) have c: "c = n" by simp
  show ?thesis
    by (simp add: c h n_def new_commit_def)
qed

lemma commit_ab:
  "fst (commit sample_hasher ''2025-01-02 09:30:00'' ''add both'' w_ab) =
     Committed ''3532085558163542402''"
  "commits (snd (commit sample_hasher ''2025-01-02 09:30:00'' ''add both'' w_ab)) =
     [(''3532085558163542402'',
       \<lparr>hash = ''3532085558163542402'', message = ''add both'',
        timestamp = ''2025-01-02 09:30:00'', parentHashes = [],
        fileBlobs = [(''a.txt'', ''120''), (''b.txt'', ''121'')]\<rparr>)]"
  by (simp_all add: run_defs w_ab_def)

lemma commit_ba:
  "fst (commit sample_hasher ''2025-01-02 09:30:00'' ''add both'' w_ba) =
     Committed ''4535616469678240130''"
  "commits (snd (commit sample_hasher ''2025-01-02 09:30:00'' ''add both'' w_ba)) =
     [(''4535616469678240130'',
       \<lparr>hash = ''4535616469678240130'', message = ''add both'',
        timestamp = ''2025-01-02 09:30:00'', parentHashes = [],
        fileBlobs = [(''b.txt'', ''121''), (''a.txt'', ''120'')]\<rparr>)]"
  by (simp_all add: run_defs w_ab_def w_ba_def)

lemma commit_ab_extra:
  "fst (commit sample_hasher ''2025-01-02 09:30:00'' ''add both''
          (w_ab\<lparr>files := (''c.txt'', File ''z'') # files w_ab\<rparr>)) =
     Committed ''3532085558163542402''"
  "commits (snd (commit sample_hasher ''2025-01-02 09:30:00'' ''add both''
          (w_ab\<lparr>files := (''c.txt'', File ''z'') # files w_ab\<rparr>))) =
     [(''3532085558163542402'',
       \<lparr>hash = ''3532085558163542402'', message = ''add both'',
        timestamp = ''2025-01-02 09:30:00'', parentHashes = [],
        fileBlobs = [(''a.txt'', ''120''), (''b.txt'', ''121'')]\<rparr>)]"
  by (simp_all add: run_defs w_ab_def)

lemma commit_staged:
  "fst (commit sample_hasher ''2025-01-02 09:30:00'' ''second'' w_staged) =
     Committed ''10355094686153184431''"
  "journal (snd (commit sample_hasher ''2025-01-02 09:30:00'' ''second'' w_staged)) =
     [Write ''.minigit/refs/heads/master'' ''10355094686153184431\<newline>'',
      Write ''.minigit/HEAD'' ''ref: refs/heads/master\<newline>'',
      Write ''.minigit/commits/10355094686153184431''
        (''message:second\<newline>timestamp:2025-01-02 09:30:00\<newline>'' @
         ''parents:10026310142314928280 \<newline>'' @
         ''files:\<newline>file.txt:70560969093\<newline>notes.txt:110534788\<newline>'')]"
  by (simp_all add: run_defs w_staged_def w_first_def files_first_def first_commit_def)

lemma trace_refl: "trace w w []"
  by (simp add: trace_def replay_def)

lemma trace_trans: "trace w w' a \<Longrightarrow> trace w' w'' b \<Longrightarrow> trace w w'' (a @ b)"
  by (simp add: trace_def replay_def)

lemma trace_same_disk: "files w' = files w \<Longrightarrow> journal w' = journal w \<Longrightarrow> trace w w' []"
  by (simp add: trace_def replay_def)

lemma write_file_trace: "write_file p c w = Some w' \<Longrightarrow> trace w w' [Write p c]"
  by (auto simp: write_file_def trace_def replay_def split: if_splits)

lemma create_directory_trace:
  "create_directory p w = Some w' \<Longrightarrow> trace w w' [] \<or> trace w w' [Mkdir p]"
  by (auto simp: create_directory_def trace_def replay_def
        split: if_splits option.splits node.splits)

lemma mkdirs_trace:
  "\<exists>ops. trace w (snd (mkdirs qs w)) ops \<and> filter (\<lambda>op. \<not> is_mkdir op) ops = []"
proof (induction qs arbitrary: w)
  case Nil
  show ?case using trace_refl [of w] by auto
next
  case (Cons q qs)
  show ?case
  proof (cases "create_directory q w")
    case None
    then show ?thesis using trace_refl [of w] by auto
  next
    case (Some w')
    from create_directory_trace [OF Some] obtain a where
      a: "trace w w' a" "filter (\<lambda>op. \<not> is_mkdir op) a = []"
      by auto
    from Cons.IH [of w'] obtain b where
      b: "trace w' (snd (mkdirs qs w')) b" "filter (\<lambda>op. \<not> is_mkdir op) b = []"
      by auto
    have "trace w (snd (mkdirs (q # qs) w)) (a @ b)"
      using trace_trans [OF a(1) b(1)] Some by simp
    then show ?thesis using a(2) b(2) by (intro exI [of _ "a @ b"]) simp
  qed
qed

lemma save_head_trace:
  "trace w (save_head w) [] \<or> trace w (save_head w) [Write ''.minigit/HEAD'' (head_text w)]"
  by (auto simp: save_head_def trace_refl split: option.splits dest: write_file_trace)

lemma saveHeadAndBranchRefs_trace:
  "\<exists>ops. trace w (snd (saveHeadAndBranchRefs w)) ops \<and>
         subseq (filter (\<lambda>op. \<not> is_mkdir op) ops)
           [Write (''.minigit/refs/heads/'' @ headBranch w) (headCommitHash w @ ''\<newline>''),
            Write ''.minigit/HEAD'' (head_text w)]"
proof (cases "headBranch w \<noteq> [] \<and> headCommitHash w \<noteq> []")
  case False
  then have eq: "snd (saveHeadAndBranchRefs w) = save_head w"
    by (auto simp: saveHeadAndBranchRefs_def)
  from save_head_trace [of w] show ?thesis
  proof
    assume t: "trace w (save_head w) []"
    show ?thesis by (intro exI [of _ "[]"]) (simp add: eq t)
  next
    assume t: "trace w (save_head w) [Write ''.minigit/HEAD'' (head_text w)]"
    show ?thesis
      by (intro exI [of _ "[Write ''.minigit/HEAD'' (head_text w)]"]) (simp add: eq t)
  qed
next
  case True
  let ?r = "''.minigit/refs/heads/'' @ headBranch w"
  obtain b w1 where m: "create_directories ''.minigit/refs/heads'' w = (b, w1)"
    by (cases "create_directories ''.minigit/refs/heads'' w")
  from mkdirs_trace [of w "dir_prefixes ''.minigit/refs/heads''"] m obtain a where
    a: "trace w w1 a" "filter (\<lambda>op. \<not> is_mkdir op) a = []"
    by (auto simp: create_directories_def)
  have t1: "head_text w1 = head_text w"
    using mkdirs_head_text [of "dir_prefixes ''.minigit/refs/heads''" w] m
    by (simp add: create_directories_def)
  show ?thesis
  proof (cases "b \<and> write_file ?r (headCommitHash w @ ''\<newline>'') w1 \<noteq> None")
    case False
    then have "snd (saveHeadAndBranchRefs w) = w1"
      using True m by (auto simp: saveHeadAndBranchRefs_def split: bool.splits)
    then show ?thesis using a by (intro exI [of _ a]) simp
  next
    case ok: True
    then obtain w2 where w2: "write_file ?r (headCommitHash w @ ''\<newline>'') w1 = Some w2"
      by auto
    have res: "snd (saveHeadAndBranchRefs w) = save_head w2"
      using True m ok w2 by (simp add: saveHeadAndBranchRefs_def)
    have t2: "head_text w2 = head_text w"
      using save_head_text [OF w2] t1 by simp
    have s1: "trace w w2 (a @ [Write ?r (headCommitHash w @ ''\<newline>'')])"
      by (rule trace_trans [OF a(1) write_file_trace [OF w2]])
    from save_head_trace [of w2] show ?thesis
    proof
      assume "trace w2 (save_head w2) []"
      from trace_trans [OF s1 this] show ?thesis
        using a(2) by (intro exI [of _ "a @ [Write ?r (headCommitHash w @ ''\<newline>'')]"])
                      (simp add: res)
    next
      assume "trace w2 (save_head w2) [Write ''.minigit/HEAD'' (head_text w2)]"
      from trace_trans [OF s1 this] show ?thesis
        using a(2)
        by (intro exI [of _ "(a @ [Write ?r (headCommitHash w @ ''\<newline>'')]) @
                              [Write ''.minigit/HEAD'' (head_text w2)]"])
           (simp add: res t2)
    qed
  qed
qed

lemma writeCommitToFile_trace:
  "trace w (writeCommitToFile c w) [] \<or>
   trace w (writeCommitToFile c w) [Write (''.minigit/commits/'' @ hash c) (serialize c)]"
  by (auto simp: writeCommitToFile_def trace_refl split: option.splits dest: write_file_trace)

subsection \<open>Checkout refuses a dirty working directory\<close>

text \<open>
  Claim C3. In an initialized repository, whenever the classification \<open>checkout\<close> computes
  has a staged change, an unstaged change or an untracked file, \<open>checkout\<close> answers
  \<open>WorkingDirDirty\<close> for every target, and the two HEAD fields, the branch map, the index
  and the file tree (hence every working-directory file and every ref file) are what they
  were; the journal shows that nothing was written. The only member that may differ is the
  commit cache, which may have read in the commit HEAD names.
\<close>

theorem checkout_dirty_refused:
  assumes "fs_exists (files w) ''.minigit''"
    and "\<not> staged_clean (getStagedChanges (files w) (stagingArea w)
                           (currentHeadCommit (ensureHeadLoaded w))) \<or>
         \<not> unstaged_clean (getUnstagedChanges hasher (files w) (stagingArea w)
                           (currentHeadCommit (ensureHeadLoaded w)))"
  shows "fst (checkout hasher target w) = WorkingDirDirty \<and>
         headBranch (snd (checkout hasher target w)) = headBranch w \<and>
         headCommitHash (snd (checkout hasher target w)) = headCommitHash w \<and>
         branches (snd (checkout hasher target w)) = branches w \<and>
         stagingArea (snd (checkout hasher target w)) = stagingArea w \<and>
         files (snd (checkout hasher target w)) = files w \<and>
         journal (snd (checkout hasher target w)) = journal w"
proof -
  have "checkout hasher target w = (WorkingDirDirty, ensureHeadLoaded w)"
    using assms by (simp add: checkout_def Let_def ensureHeadLoaded_frame status_loaded)
  then show ?thesis by (simp add: ensureHeadLoaded_frame)
qed

theorem checkout_dirty_refused_witness:
  "fs_exists (files w_untracked) ''.minigit'' \<and>
   untracked (getUnstagedChanges sample_hasher (files w_untracked) (stagingArea w_untracked)
                (currentHeadCommit (ensureHeadLoaded w_untracked))) = [''notes.txt''] \<and>
   fst (checkout sample_hasher ''master'' w_untracked) = WorkingDirDirty \<and>
   files (snd (checkout sample_hasher ''master'' w_untracked)) = files w_untracked \<and>
   headBranch (snd (checkout sample_hasher ''master'' w_untracked)) = ''master''"
proof -
  have repo: "fs_exists (files w_untracked) ''.minigit''"
    by (simp add: w_untracked_def files_first_def fs_exists_def)
  have un: "untracked (getUnstagedChanges sample_hasher (files w_untracked)
                (stagingArea w_untracked) (currentHeadCommit (ensureHeadLoaded w_untracked)))
            = [''notes.txt'']"
    by (simp add: getUnstagedChanges_def wd_scan_untracked w_untracked_loaded)
       (simp add: w_untracked_def w_first_def first_commit_def currentHeadCommit_def
          tree_of_def count_key_def)
  then have dirty: "\<not> staged_clean (getStagedChanges (files w_untracked) (stagingArea w_untracked)
                           (currentHeadCommit (ensureHeadLoaded w_untracked))) \<or>
         \<not> unstaged_clean (getUnstagedChanges sample_hasher (files w_untracked)
                           (stagingArea w_untracked)
                           (currentHeadCommit (ensureHeadLoaded w_untracked)))"
    by (simp add: unstaged_clean_def)
  have hb: "headBranch w_untracked = ''master''"
    by (simp add: w_untracked_def w_first_def)
  show ?thesis
    using checkout_dirty_refused [OF repo dirty, of "''master''"] repo un hb by simp
qed

subsection \<open>Commit with nothing staged\<close>

text \<open>
  Claim C6. In an initialized repository, when the staged classification has no added, no
  modified and no deleted entry, \<open>commit\<close> answers \<open>NoEffectiveChanges\<close>, empties the
  index, writes nothing (file tree and journal are unchanged), and leaves HEAD and the branch
  map alone. No commit is created: the cache is the one \<open>ensureHeadLoaded\<close> leaves, which
  differs from the old one at most at the digest HEAD already names.
\<close>

theorem commit_nothing_staged:
  assumes "fs_exists (files w) ''.minigit''"
    and "staged_clean (getStagedChanges (files w) (stagingArea w)
                         (currentHeadCommit (ensureHeadLoaded w)))"
  shows "fst (commit hasher now msg w) = NoEffectiveChanges \<and>
         stagingArea (snd (commit hasher now msg w)) = [] \<and>
         files (snd (commit hasher now msg w)) = files w \<and>
         journal (snd (commit hasher now msg w)) = journal w \<and>
         headBranch (snd (commit hasher now msg w)) = headBranch w \<and>
         headCommitHash (snd (commit hasher now msg w)) = headCommitHash w \<and>
         branches (snd (commit hasher now msg w)) = branches w \<and>
         commits (snd (commit hasher now msg w)) = commits (ensureHeadLoaded w) \<and>
         (\<forall>h. h \<noteq> headCommitHash w \<longrightarrow>
              map_of (commits (snd (commit hasher now msg w))) h = map_of (commits w) h)"
  using assms by (simp add: commit_def Let_def ensureHeadLoaded_frame ensureHeadLoaded_other)

theorem commit_nothing_staged_witness:
  "fs_exists (files w_first) ''.minigit'' \<and>
   staged_clean (getStagedChanges (files w_first) (stagingArea w_first)
                   (currentHeadCommit (ensureHeadLoaded w_first))) \<and>
   fst (commit sample_hasher ''2025-01-02 09:30:00'' ''again'' w_first) = NoEffectiveChanges \<and>
   files (snd (commit sample_hasher ''2025-01-02 09:30:00'' ''again'' w_first)) = files_first \<and>
   commits (snd (commit sample_hasher ''2025-01-02 09:30:00'' ''again'' w_first)) =
     commits w_first"
proof -
  have repo: "fs_exists (files w_first) ''.minigit''"
    by (simp add: w_first_def files_first_def fs_exists_def)
  have clean: "staged_clean (getStagedChanges (files w_first) (stagingArea w_first)
                   (currentHeadCommit (ensureHeadLoaded w_first)))"
    by (simp add: w_first_loaded)
       (simp add: staged_clean_def getStagedChanges_def w_first_def first_commit_def
          files_first_def currentHeadCommit_def tree_of_def count_key_def entries_def
          fs_exists_def)
  have fs: "files w_first = files_first" by (simp add: w_first_def)
  show ?thesis
    using commit_nothing_staged [OF repo clean, of sample_hasher "''2025-01-02 09:30:00''" "''again''"]
      repo clean fs
    by (simp add: w_first_loaded)
qed

subsection \<open>The snapshot and the parents of a new commit\<close>

text \<open>
  Claim C7. In an initialized repository with at least one staged change, \<open>commit\<close> creates
  a commit \<open>c\<close>, stored in the cache under its digest, to which HEAD moves. Its tree, as a
  mapping, is the tree of HEAD's commit overridden by every entry of the index, restricted to
  the paths that are not classified as staged deletions; its parent list is HEAD's digest
  alone when HEAD names a commit and is empty otherwise. (The run answers \<open>Committed\<close>
  unless \<open>create_directories\<close> throws while the refs are saved.)
\<close>

theorem commit_tree_and_parents:
  assumes repo: "fs_exists (files w) ''.minigit''"
    and staged: "\<not> staged_clean (getStagedChanges (files w) (stagingArea w)
                                  (currentHeadCommit (ensureHeadLoaded w)))"
  shows "\<exists>c. (fst (commit hasher now msg w) = Committed (hash c) \<or>
              fst (commit hasher now msg w) = Crashed) \<and>
             map_of (commits (snd (commit hasher now msg w))) (hash c) = Some c \<and>
             headCommitHash (snd (commit hasher now msg w)) = hash c \<and>
             message c = msg \<and> timestamp c = now \<and>
             map_of (fileBlobs c) =
               (map_of (tree_of (currentHeadCommit (ensureHeadLoaded w))) ++
                map_of (stagingArea w))
                 |` (- set (deleted (getStagedChanges (files w) (stagingArea w)
                                       (currentHeadCommit (ensureHeadLoaded w))))) \<and>
             parentHashes c = (if headCommitHash w \<noteq> [] then [headCommitHash w] else [])"
proof -
  let ?w1 = "ensureHeadLoaded w"
  let ?st = "getStagedChanges (files w) (stagingArea w) (currentHeadCommit ?w1)"
  define c where "c = new_commit hasher now msg ?w1 (deleted ?st)"
  define w2 where "w2 = record_commit c ?w1"
  obtain b w3 where sv: "saveHeadAndBranchRefs w2 = (b, w3)"
    by (cases "saveHeadAndBranchRefs w2")
  have run: "commit hasher now msg w =
      (if b then (Committed (hash c), (writeCommitToFile c w3)\<lparr>stagingArea := []\<rparr>)
       else (Crashed, w3))"
    using repo staged sv
    by (simp add: commit_def Let_def ensureHeadLoaded_frame c_def [symmetric] w2_def [symmetric])
  have fr: "commits w3 = commits w2" "headCommitHash w3 = headCommitHash w2"
    using saveHeadAndBranchRefs_frame [of w2] sv by simp_all
  have out: "fst (commit hasher now msg w) = Committed (hash c) \<or>
             fst (commit hasher now msg w) = Crashed"
    by (simp add: run)
  have cs: "commits (snd (commit hasher now msg w)) = commits w2"
    using fr(1) by (simp add: run writeCommitToFile_frame)
  have hd: "headCommitHash (snd (commit hasher now msg w)) = hash c"
    using fr(2) by (simp add: run writeCommitToFile_frame w2_def record_commit_def)
  have look: "map_of (commits (snd (commit hasher now msg w))) (hash c) = Some c"
    by (simp add: cs w2_def record_commit_def AList.update_conv')
  have tree: "map_of (fileBlobs c) =
      (map_of (tree_of (currentHeadCommit ?w1)) ++ map_of (stagingArea w)) |` (- set (deleted ?st))"
    by (simp add: c_def new_commit_def new_tree_map)
  have rest: "message c = msg" "timestamp c = now"
    "parentHashes c = (if headCommitHash w \<noteq> [] then [headCommitHash w] else [])"
    by (simp_all add: c_def new_commit_def ensureHeadLoaded_frame)
  show ?thesis
    using out look hd tree rest by blast
qed

theorem commit_tree_and_parents_witness:
  "fs_exists (files w_staged) ''.minigit'' \<and>
   added (getStagedChanges (files w_staged) (stagingArea w_staged)
            (currentHeadCommit (ensureHeadLoaded w_staged))) = [''notes.txt''] \<and>
   (\<exists>c. (fst (commit sample_hasher ''2025-01-02 09:30:00'' ''second'' w_staged) = Committed (hash c) \<or>
         fst (commit sample_hasher ''2025-01-02 09:30:00'' ''second'' w_staged) = Crashed) \<and>
        map_of (commits (snd (commit sample_hasher ''2025-01-02 09:30:00'' ''second'' w_staged)))
          (hash c) = Some c \<and>
        map_of (fileBlobs c) = [''file.txt'' \<mapsto> ''70560969093'', ''notes.txt'' \<mapsto> ''110534788''] \<and>
        parentHashes c = [''10026310142314928280''])"
proof -
  have repo: "fs_exists (files w_staged) ''.minigit''"
    by (simp add: w_staged_def files_first_def fs_exists_def)
  have st: "getStagedChanges (files w_staged) (stagingArea w_staged)
              (currentHeadCommit (ensureHeadLoaded w_staged)) =
            \<lparr>added = [''notes.txt''], modified = [], deleted = []\<rparr>"
    by (simp add: w_staged_loaded)
       (simp add: getStagedChanges_def w_staged_def w_first_def first_commit_def
          files_first_def currentHeadCommit_def tree_of_def count_key_def entries_def
          fs_exists_def)
  then have dirty: "\<not> staged_clean (getStagedChanges (files w_staged) (stagingArea w_staged)
              (currentHeadCommit (ensureHeadLoaded w_staged)))"
    by (simp add: staged_clean_def)
  have tr: "tree_of (currentHeadCommit (ensureHeadLoaded w_staged)) = [(''file.txt'', ''70560969093'')]"
    by (simp add: w_staged_loaded)
       (simp add: w_staged_def w_first_def first_commit_def currentHeadCommit_def tree_of_def)
  have sa: "stagingArea w_staged = [(''notes.txt'', ''110534788'')]"
    "headCommitHash w_staged = ''10026310142314928280''"
    by (simp_all add: w_staged_def w_first_def)
  have m: "(map_of [(''file.txt'', ''70560969093'')] ++ map_of [(''notes.txt'', ''110534788'')]) |` (- {})
           = [''file.txt'' \<mapsto> ''70560969093'', ''notes.txt'' \<mapsto> ''110534788'']"
    by (auto simp: map_add_def fun_eq_iff)
  have ad: "added (getStagedChanges (files w_staged) (stagingArea w_staged)
            (currentHeadCommit (ensureHeadLoaded w_staged))) = [''notes.txt'']"
    by (simp add: st)
  note run = commit_tree_and_parents [OF repo dirty, of sample_hasher
      "''2025-01-02 09:30:00''" "''second''", unfolded st tr]
  then obtain c where
    c: "fst (commit sample_hasher ''2025-01-02 09:30:00'' ''second'' w_staged) = Committed (hash c) \<or>
        fst (commit sample_hasher ''2025-01-02 09:30:00'' ''second'' w_staged) = Crashed"
      "map_of (commits (snd (commit sample_hasher ''2025-01-02 09:30:00'' ''second'' w_staged)))
          (hash c) = Some c"
      "map_of (fileBlobs c) =
         (map_of [(''file.txt'', ''70560969093'')] ++ map_of (stagingArea w_staged))
           |` (- set (deleted \<lparr>added = [''notes.txt''], modified = [], deleted = []\<rparr>))"
      "parentHashes c = (if headCommitHash w_staged \<noteq> [] then [headCommitHash w_staged] else [])"
    by blast
  have "map_of (fileBlobs c) = [''file.txt'' \<mapsto> ''70560969093'', ''notes.txt'' \<mapsto> ''110534788'']"
    using c(3) m by (simp add: sa)
  moreover have "parentHashes c = [''10026310142314928280'']"
    using c(4) by (simp add: sa)
  ultimately show ?thesis
    using repo ad c(1,2) by blast
qed

subsection \<open>What branch changes\<close>

text \<open>
  Claim C10. When \<open>branch name\<close> succeeds, \<open>name\<close> was not bound and the branch map
  afterwards is the old one with the binding of \<open>name\<close> to HEAD's digest added at its end.
  Both HEAD fields, the index and the commit cache are what they were. On disk every
  working-directory file, every object file and every commit file is untouched, as is any
  other path except \<open>.minigit/HEAD\<close> and the ref file of the current branch; these two are
  either left alone or rewritten with the text that the unchanged HEAD fields dictate.
\<close>

theorem branch_only_adds_binding:
  assumes "fst (branch name w) = Created"
  shows "map_of (branches w) name = None \<and>
         branches (snd (branch name w)) = branches w @ [(name, headCommitHash w)] \<and>
         headBranch (snd (branch name w)) = headBranch w \<and>
         headCommitHash (snd (branch name w)) = headCommitHash w \<and>
         stagingArea (snd (branch name w)) = stagingArea w \<and>
         commits (snd (branch name w)) = commits w \<and>
         (\<forall>f. CHR ''/'' \<notin> set f \<longrightarrow>
              file_at (files (snd (branch name w))) f = file_at (files w) f) \<and>
         (\<forall>h. file_at (files (snd (branch name w))) (''.minigit/objects/'' @ h) =
              file_at (files w) (''.minigit/objects/'' @ h)) \<and>
         (\<forall>h. file_at (files (snd (branch name w))) (''.minigit/commits/'' @ h) =
              file_at (files w) (''.minigit/commits/'' @ h)) \<and>
         (\<forall>p. p \<noteq> ''.minigit/HEAD'' \<and> p \<noteq> ''.minigit/refs/heads/'' @ headBranch w \<longrightarrow>
              file_at (files (snd (branch name w))) p = file_at (files w) p) \<and>
         (file_at (files (snd (branch name w))) ''.minigit/HEAD'' = file_at (files w) ''.minigit/HEAD'' \<or>
          file_at (files (snd (branch name w))) ''.minigit/HEAD'' = Some (head_text w)) \<and>
         (file_at (files (snd (branch name w))) (''.minigit/refs/heads/'' @ headBranch w) =
            file_at (files w) (''.minigit/refs/heads/'' @ headBranch w) \<or>
          file_at (files (snd (branch name w))) (''.minigit/refs/heads/'' @ headBranch w) =
            Some (headCommitHash w @ ''\<newline>''))"
proof -
  let ?w0 = "w\<lparr>branches := AList.update name (headCommitHash w) (branches w)\<rparr>"
  from assms have absent: "map_of (branches w) name = None"
    by (auto simp: branch_def count_key_def split: if_splits)
  from assms have run: "snd (branch name w) = snd (saveHeadAndBranchRefs ?w0)"
    by (auto simp: branch_def split: if_splits prod.splits bool.splits)
  have mem: "branches (snd (branch name w)) = branches w @ [(name, headCommitHash w)]"
    "headBranch (snd (branch name w)) = headBranch w"
    "headCommitHash (snd (branch name w)) = headCommitHash w"
    "stagingArea (snd (branch name w)) = stagingArea w"
    "commits (snd (branch name w)) = commits w"
    using saveHeadAndBranchRefs_frame [of ?w0] absent by (simp_all add: run update_absent)
  have disk: "file_at (files (snd (branch name w))) p = file_at (files w) p"
    if "p \<noteq> ''.minigit/HEAD''" "p \<noteq> ''.minigit/refs/heads/'' @ headBranch w" for p
    using saveHeadAndBranchRefs_file_at [of p ?w0] that by (simp add: run)
  have wd: "file_at (files (snd (branch name w))) f = file_at (files w) f"
    if "CHR ''/'' \<notin> set f" for f
    using that by (intro disk) auto
  have ob: "file_at (files (snd (branch name w))) (''.minigit/objects/'' @ h) =
              file_at (files w) (''.minigit/objects/'' @ h)" for h
    by (intro disk) auto
  have co: "file_at (files (snd (branch name w))) (''.minigit/commits/'' @ h) =
              file_at (files w) (''.minigit/commits/'' @ h)" for h
    by (intro disk) auto
  have rw: "(file_at (files (snd (branch name w))) ''.minigit/HEAD'' = file_at (files w) ''.minigit/HEAD'' \<or>
          file_at (files (snd (branch name w))) ''.minigit/HEAD'' = Some (head_text w)) \<and>
         (file_at (files (snd (branch name w))) (''.minigit/refs/heads/'' @ headBranch w) =
            file_at (files w) (''.minigit/refs/heads/'' @ headBranch w) \<or>
          file_at (files (snd (branch name w))) (''.minigit/refs/heads/'' @ headBranch w) =
            Some (headCommitHash w @ ''\<newline>''))"
  proof -
    have ht: "head_text ?w0 = head_text w"
      by (simp add: head_text_def)
    show ?thesis
      using saveHeadAndBranchRefs_rewrites [of ?w0] by (simp add: run ht)
  qed
  show ?thesis
    using absent mem disk wd ob co rw by blast
qed

theorem branch_only_adds_binding_witness:
  "fst (branch ''feature'' w_first) = Created \<and>
   branches (snd (branch ''feature'' w_first)) =
     [(''master'', ''10026310142314928280''), (''feature'', ''10026310142314928280'')] \<and>
   headBranch (snd (branch ''feature'' w_first)) = ''master'' \<and>
   file_at (files (snd (branch ''feature'' w_first))) ''file.txt'' = Some ''Line 1\<newline>'' \<and>
   file_at (files (snd (branch ''feature'' w_first))) (''.minigit/objects/'' @ ''70560969093'') =
     Some ''Line 1\<newline>''"
proof -
  have ok: "fst (branch ''feature'' w_first) = Created"
    by code_simp
  have pre: "branches w_first = [(''master'', ''10026310142314928280'')]"
    "headCommitHash w_first = ''10026310142314928280''" "headBranch w_first = ''master''"
    "file_at (files w_first) ''file.txt'' = Some ''Line 1\<newline>''"
    "file_at (files w_first) (''.minigit/objects/'' @ ''70560969093'') = Some ''Line 1\<newline>''"
    by (simp_all add: w_first_def files_first_def file_at_def)
  have sl: "CHR ''/'' \<notin> set ''file.txt''" by simp
  show ?thesis
    using branch_only_adds_binding [OF ok] ok pre sl by (metis append_Cons append_Nil)
qed

subsection \<open>Branch does not persist the new ref\<close>

text \<open>
  Claim C1 says that after a successful \<open>branch name\<close> the file
  \<open>.minigit/refs/heads/name\<close> exists, holds the current digest, and that a reload lists
  the branch. The source comments the call of \<open>saveHeadAndBranchRefs\<close> in \<open>branch\<close> with
  "Persist the new branch reference", but that function writes the ref file of
  \<open>headBranch\<close> only. On the repository left by a first commit, \<open>branch feature\<close> succeeds,
  the file tree is exactly what it was, no ref file for \<open>feature\<close> exists, and the
  constructor of the next process finds \<open>master\<close> alone.
\<close>

theorem branch_ref_not_persisted:
  "MiniGitSystem files_first [] = Some w_first \<and>
   fst (branch ''feature'' w_first) = Created \<and>
   map_of (branches (snd (branch ''feature'' w_first))) ''feature'' =
     Some ''10026310142314928280'' \<and>
   \<not> fs_exists (files (snd (branch ''feature'' w_first))) ''.minigit/refs/heads/feature'' \<and>
   files (snd (branch ''feature'' w_first)) = files_first \<and>
   map_option branches (MiniGitSystem (files (snd (branch ''feature'' w_first))) []) =
     Some [(''master'', ''10026310142314928280'')]"
  by code_simp

subsection \<open>Init does not write the master ref\<close>

text \<open>
  Claim C8 says that after \<open>init\<close> in a fresh directory the ref file
  \<open>.minigit/refs/heads/master\<close> exists with empty content. The source comments the call of
  \<open>saveHeadAndBranchRefs\<close> in \<open>init\<close> with "Create the HEAD file and master ref", but the
  function skips the ref file while \<open>headCommitHash\<close> is empty. In the empty directory
  \<open>init\<close> succeeds, creates the four directories and \<open>.minigit/HEAD\<close> with the line
  \<open>ref: refs/heads/master\<close>, and creates no ref file; the next process loads an empty
  branch map.
\<close>

theorem init_writes_no_master_ref:
  "fst (init (fresh [] [])) = Initialized \<and>
   files (snd (init (fresh [] []))) =
     [(''.minigit'', Dir), (''.minigit/objects'', Dir), (''.minigit/commits'', Dir),
      (''.minigit/refs'', Dir), (''.minigit/refs/heads'', Dir),
      (''.minigit/HEAD'', File ''ref: refs/heads/master\<newline>'')] \<and>
   \<not> fs_exists (files (snd (init (fresh [] [])))) ''.minigit/refs/heads/master'' \<and>
   map_of (branches (snd (init (fresh [] [])))) ''master'' = Some [] \<and>
   map_option branches (MiniGitSystem (files (snd (init (fresh [] [])))) []) = Some []"
  by code_simp

subsection \<open>Reading a blob\<close>

text \<open>
  Claim C5 says that reading an unknown digest fails with \<open>MissingObject\<close> in a way that
  differs from reading a stored empty blob. \<open>loadBlob\<close> returns the empty string when the
  object file cannot be opened, which is also what it returns for a stored empty blob: on an
  object store holding the empty blob under \<open>0\<close> and on one holding nothing, reading \<open>0\<close>
  gives the same result.
\<close>

theorem loadBlob_missing_like_empty:
  "loadBlob [(''.minigit'', Dir), (''.minigit/objects'', Dir),
             (''.minigit/objects/0'', File [])] ''0'' =
   loadBlob [(''.minigit'', Dir), (''.minigit/objects'', Dir)] ''0''"
  by (simp add: loadBlob_def)

text \<open>
  Claim C5 as amended. \<open>loadBlob\<close> answers the empty string both for a digest with no
  object file and for a stored empty blob. The two are told apart where a tree is
  materialized: the loop of \<open>populateWorkingDirectory\<close> checks that the object file exists,
  so a path whose blob is missing is skipped with a \<open>MissingObject\<close> warning and nothing is
  written, while a path whose blob is stored and empty is written as an empty file, without
  a warning, whenever the file can be opened.
\<close>

theorem materialize_tells_missing_from_empty:
  "(file_at fs (''.minigit/objects/'' @ h) = None \<longrightarrow> loadBlob fs h = []) \<and>
   (file_at fs (''.minigit/objects/'' @ h) = Some [] \<longrightarrow> loadBlob fs h = []) \<and>
   (\<not> fs_exists (files w) (''.minigit/objects/'' @ h) \<longrightarrow>
      materialize (f, h) (w, wd, ws) = (w, wd, ws @ [MissingObject f h])) \<and>
   (file_at (files w) (''.minigit/objects/'' @ h) = Some [] \<and> can_open_out (files w) f \<longrightarrow>
      materialize (f, h) (w, wd, ws) =
        (w\<lparr>files := AList.update f (File []) (files w), journal := journal w @ [Write f []]\<rparr>,
         removeAll f wd, ws))"
  by (auto simp: materialize_def loadBlob_def file_at_def fs_exists_def write_file_def
        split: option.splits node.splits)

theorem materialize_tells_missing_from_empty_witness:
  "\<not> fs_exists (files w_blobs) (''.minigit/objects/'' @ ''120'') \<and>
   materialize (''a.txt'', ''120'') (w_blobs, [], []) = (w_blobs, [], [MissingObject ''a.txt'' ''120'']) \<and>
   file_at (files w_blobs) (''.minigit/objects/'' @ ''0'') = Some [] \<and>
   can_open_out (files w_blobs) ''empty.txt'' \<and>
   file_at (files (fst (materialize (''empty.txt'', ''0'') (w_blobs, [], [])))) ''empty.txt'' = Some [] \<and>
   snd (snd (materialize (''empty.txt'', ''0'') (w_blobs, [], []))) = []"
proof -
  have a: "\<not> fs_exists (files w_blobs) (''.minigit/objects/'' @ ''120'')"
    by (simp add: w_blobs_def fresh_def fs_exists_def)
  have b: "file_at (files w_blobs) (''.minigit/objects/'' @ ''0'') = Some []"
    by (simp add: w_blobs_def fresh_def file_at_def)
  have c: "can_open_out (files w_blobs) ''empty.txt''"
    by (simp add: w_blobs_def fresh_def can_open_out_def parent_path_def)
  show ?thesis
    using materialize_tells_missing_from_empty [of "files w_blobs" "''120''" w_blobs "''a.txt''" "[]" "[]"]
      materialize_tells_missing_from_empty [of "files w_blobs" "''0''" w_blobs "''empty.txt''" "[]" "[]"]
      a b c
    by (simp add: file_at_def AList.update_conv')
qed

subsection \<open>Resolving a checkout target by prefix\<close>

text \<open>
  Claim C4 says that a target which is a prefix of two or more known digests makes
  \<open>checkout\<close> fail with \<open>UnknownTarget\<close>. The loop over the cache stops at the first
  digest the target is a prefix of. In a clean repository whose two commits both start with
  \<open>1002\<close>, \<open>checkout 1002\<close> does not fail: HEAD, attached to \<open>master\<close> before, is detached
  at the first of the two.
\<close>

theorem checkout_shared_prefix_resolves:
  "starts_with ''1002'' ''10026310142314928280'' \<and>
   starts_with ''1002'' ''10029999999999999999'' \<and>
   map fst (commits w_shared_prefix) = [''10026310142314928280'', ''10029999999999999999''] \<and>
   headBranch w_shared_prefix = ''master'' \<and>
   \<not> count_key (branches w_shared_prefix) ''1002'' \<and>
   \<not> count_key (commits w_shared_prefix) ''1002'' \<and>
   fst (checkout sample_hasher ''1002'' w_shared_prefix) \<noteq> UnknownTarget \<and>
   headCommitHash (snd (checkout sample_hasher ''1002'' w_shared_prefix)) = ''10026310142314928280'' \<and>
   headBranch (snd (checkout sample_hasher ''1002'' w_shared_prefix)) = []"
proof -
  have repo: "fs_exists (files w_shared_prefix) ''.minigit''"
    by (simp add: w_shared_prefix_def files_first_def fs_exists_def)
  have hd: "headBranch w_shared_prefix = ''master''"
    "count_key (commits w_shared_prefix) ''10026310142314928280''"
    by (simp_all add: w_shared_prefix_def w_first_def count_key_def)
  let ?w2 = "w_shared_prefix\<lparr>headBranch := [], headCommitHash := ''10026310142314928280''\<rparr>"
  have sv: "saveHeadAndBranchRefs ?w2 = (True, save_head ?w2)"
    by (simp add: saveHeadAndBranchRefs_def)
  obtain w4 warns where pw: "populateWorkingDirectory
       (commit_at (commits (save_head ?w2)) ''10026310142314928280'') (save_head ?w2) = (w4, warns)"
    by (cases "populateWorkingDirectory
       (commit_at (commits (save_head ?w2)) ''10026310142314928280'') (save_head ?w2)")
  have w4: "headBranch w4 = []" "headCommitHash w4 = ''10026310142314928280''"
    using populateWorkingDirectory_head
       [of "commit_at (commits (save_head ?w2)) ''10026310142314928280''" "save_head ?w2"] pw
    by (simp_all add: save_head_frame)
  have run: "checkout sample_hasher ''1002'' w_shared_prefix = (CheckedOut warns, w4\<lparr>stagingArea := []\<rparr>)"
    using repo staged_shared unstaged_shared hd sv pw
    by (simp add: checkout_def Let_def w_shared_prefix_loaded resolve_shared)
  have rest: "starts_with ''1002'' ''10026310142314928280''"
    "starts_with ''1002'' ''10029999999999999999''"
    "map fst (commits w_shared_prefix) = [''10026310142314928280'', ''10029999999999999999'']"
    "\<not> count_key (branches w_shared_prefix) ''1002''"
    "\<not> count_key (commits w_shared_prefix) ''1002''"
    "headBranch w_shared_prefix = ''master''"
    by (simp_all add: starts_with_def w_shared_prefix_def w_first_def count_key_def)
  show ?thesis
    using rest w4 by (simp add: run)
qed

text \<open>
  Claim C4 as amended. In an initialized, clean repository, for a target that is neither a
  branch name nor a digest in the cache (after HEAD's commit was read in): when the target
  is shorter than four characters or a prefix of no cached digest, \<open>checkout\<close> answers
  \<open>UnknownTarget\<close> and the state is the one \<open>ensureHeadLoaded\<close> leaves, so HEAD, refs,
  working directory and index are unchanged; otherwise it resolves the target to the first
  digest, in the iteration order of the cache, that the target is a prefix of, and HEAD ends
  detached at that digest.
\<close>

theorem checkout_prefix_takes_first_match:
  assumes repo: "fs_exists (files w) ''.minigit''"
    and clean: "staged_clean (getStagedChanges (files w) (stagingArea w)
                                (currentHeadCommit (ensureHeadLoaded w)))"
               "unstaged_clean (getUnstagedChanges hasher (files w) (stagingArea w)
                                  (currentHeadCommit (ensureHeadLoaded w)))"
    and nb: "\<not> count_key (branches w) target"
    and nc: "\<not> count_key (commits (ensureHeadLoaded w)) target"
  shows "(find (\<lambda>k. starts_with target k \<and> 4 \<le> length target)
              (map fst (entries (commits (ensureHeadLoaded w)))) = None
          \<longleftrightarrow> length target < 4 \<or>
              (\<forall>k. count_key (commits (ensureHeadLoaded w)) k \<longrightarrow> \<not> starts_with target k)) \<and>
         (find (\<lambda>k. starts_with target k \<and> 4 \<le> length target)
              (map fst (entries (commits (ensureHeadLoaded w)))) = None \<longrightarrow>
            checkout hasher target w = (UnknownTarget, ensureHeadLoaded w)) \<and>
         (\<forall>k. find (\<lambda>k. starts_with target k \<and> 4 \<le> length target)
                 (map fst (entries (commits (ensureHeadLoaded w)))) = Some k \<longrightarrow>
              (fst (checkout hasher target w) = AlreadyOn \<or>
               (\<exists>ws. fst (checkout hasher target w) = CheckedOut ws)) \<and>
              headCommitHash (snd (checkout hasher target w)) = k \<and>
              headBranch (snd (checkout hasher target w)) = [])"
proof -
  let ?w1 = "ensureHeadLoaded w"
  let ?P = "\<lambda>k. starts_with target k \<and> 4 \<le> length target"
  let ?f = "find ?P (map fst (entries (commits ?w1)))"
  have res: "resolve_target ?w1 target = (case ?f of Some k \<Rightarrow> (k, []) | None \<Rightarrow> ([], []))"
    using nb nc by (simp add: resolve_target_def ensureHeadLoaded_frame)
  have none: "checkout hasher target w = (UnknownTarget, ?w1)" if "?f = None"
    using repo clean res that
    by (simp add: checkout_def Let_def ensureHeadLoaded_frame)
  have some: "(fst (checkout hasher target w) = AlreadyOn \<or>
               (\<exists>ws. fst (checkout hasher target w) = CheckedOut ws)) \<and>
              headCommitHash (snd (checkout hasher target w)) = k \<and>
              headBranch (snd (checkout hasher target w)) = []" if f: "?f = Some k" for k
  proof -
    have key: "count_key (commits ?w1) k" and pk: "?P k"
      using find_key_present [OF f] by simp_all
    from pk have ne: "k \<noteq> []"
      by (auto simp: starts_with_def)
    let ?w2 = "?w1\<lparr>headBranch := [], headCommitHash := k\<rparr>"
    have sv: "saveHeadAndBranchRefs ?w2 = (True, save_head ?w2)"
      by (simp add: saveHeadAndBranchRefs_def)
    have sh: "headBranch (save_head ?w2) = []" "headCommitHash (save_head ?w2) = k"
      by (simp_all add: save_head_frame)
    show ?thesis
    proof (cases "headCommitHash ?w1 = k \<and> headBranch ?w1 = []")
      case True
      then show ?thesis
        using repo clean res f key ne
        by (simp add: checkout_def Let_def ensureHeadLoaded_frame)
    next
      case False
      obtain w4 warns where pw: "populateWorkingDirectory
           (commit_at (commits (save_head ?w2)) k) (save_head ?w2) = (w4, warns)"
        by (cases "populateWorkingDirectory (commit_at (commits (save_head ?w2)) k) (save_head ?w2)")
      have w4: "headBranch w4 = []" "headCommitHash w4 = k"
        using populateWorkingDirectory_head
                [of "commit_at (commits (save_head ?w2)) k" "save_head ?w2"] pw sh
        by simp_all
      have "checkout hasher target w = (CheckedOut warns, w4\<lparr>stagingArea := []\<rparr>)"
        using repo clean res f key ne False sv pw
        by (auto simp: checkout_def Let_def ensureHeadLoaded_frame)
      then show ?thesis using w4 by simp
    qed
  qed
  have char: "?f = None \<longleftrightarrow> length target < 4 \<or>
              (\<forall>k. count_key (commits ?w1) k \<longrightarrow> \<not> starts_with target k)"
    by (auto simp: find_key_none)
  show ?thesis
    using char none some by blast
qed

theorem checkout_prefix_takes_first_match_witness:
  "fs_exists (files w_shared_prefix) ''.minigit'' \<and>
   find (\<lambda>k. starts_with ''1002'' k \<and> 4 \<le> length ''1002'')
     (map fst (entries (commits (ensureHeadLoaded w_shared_prefix)))) =
     Some ''10026310142314928280'' \<and>
   (fst (checkout sample_hasher ''1002'' w_shared_prefix) = AlreadyOn \<or>
    (\<exists>ws. fst (checkout sample_hasher ''1002'' w_shared_prefix) = CheckedOut ws)) \<and>
   headCommitHash (snd (checkout sample_hasher ''1002'' w_shared_prefix)) = ''10026310142314928280'' \<and>
   find (\<lambda>k. starts_with ''100'' k \<and> 4 \<le> length ''100'')
     (map fst (entries (commits (ensureHeadLoaded w_shared_prefix)))) = None \<and>
   checkout sample_hasher ''100'' w_shared_prefix = (UnknownTarget, w_shared_prefix)"
proof -
  have repo: "fs_exists (files w_shared_prefix) ''.minigit''"
    by (simp add: w_shared_prefix_def files_first_def fs_exists_def)
  have nb: "\<not> count_key (branches w_shared_prefix) ''1002''"
    "\<not> count_key (branches w_shared_prefix) ''100''"
    by (simp_all add: w_shared_prefix_def w_first_def count_key_def)
  have nc: "\<not> count_key (commits (ensureHeadLoaded w_shared_prefix)) ''1002''"
    "\<not> count_key (commits (ensureHeadLoaded w_shared_prefix)) ''100''"
    by (simp_all add: w_shared_prefix_loaded)
       (simp_all add: w_shared_prefix_def w_first_def count_key_def)
  have f1: "find (\<lambda>k. starts_with ''1002'' k \<and> 4 \<le> length ''1002'')
     (map fst (entries (commits (ensureHeadLoaded w_shared_prefix)))) =
     Some ''10026310142314928280''"
    by (simp add: w_shared_prefix_loaded)
       (simp add: w_shared_prefix_def w_first_def entries_def starts_with_def)
  have f2: "find (\<lambda>k. starts_with ''100'' k \<and> 4 \<le> length ''100'')
     (map fst (entries (commits (ensureHeadLoaded w_shared_prefix)))) = None"
    by (simp add: w_shared_prefix_loaded)
       (simp add: w_shared_prefix_def w_first_def entries_def starts_with_def)
  show ?thesis
    using checkout_prefix_takes_first_match [OF repo staged_shared unstaged_shared nb(1) nc(1)]
      checkout_prefix_takes_first_match [OF repo staged_shared unstaged_shared nb(2) nc(2)]
      repo f1 f2
    by (simp add: w_shared_prefix_loaded)
qed

subsection \<open>The commit digest\<close>

text \<open>
  Claim C9 says that the digest is a function of the message, the timestamp, the ordered
  parents and the tree mapping. The digest is the hash of a string that lists the tree
  entries in the iteration order of the container, and one mapping can be held in more than
  one order. Staging \<open>a.txt\<close> and \<open>b.txt\<close> in the two orders, in otherwise equal
  repositories, and committing with the same message at the same time gives two commits with
  equal message, timestamp, parents and tree mapping, and different digests (for a hasher
  that separates the two strings, as the stand-in does).
\<close>

theorem commit_digest_follows_iteration_order:
  "stagingArea w_ab = [(''a.txt'', ''120''), (''b.txt'', ''121'')] \<and>
   stagingArea w_ba = [(''b.txt'', ''121''), (''a.txt'', ''120'')] \<and>
   files w_ba = files w_ab \<and> headCommitHash w_ba = headCommitHash w_ab \<and>
   commits (snd (commit sample_hasher ''2025-01-02 09:30:00'' ''add both'' w_ab)) =
     [(''3532085558163542402'',
       \<lparr>hash = ''3532085558163542402'', message = ''add both'',
        timestamp = ''2025-01-02 09:30:00'', parentHashes = [],
        fileBlobs = [(''a.txt'', ''120''), (''b.txt'', ''121'')]\<rparr>)] \<and>
   commits (snd (commit sample_hasher ''2025-01-02 09:30:00'' ''add both'' w_ba)) =
     [(''4535616469678240130'',
       \<lparr>hash = ''4535616469678240130'', message = ''add both'',
        timestamp = ''2025-01-02 09:30:00'', parentHashes = [],
        fileBlobs = [(''b.txt'', ''121''), (''a.txt'', ''120'')]\<rparr>)] \<and>
   map_of [(''a.txt'', ''120''), (''b.txt'', ''121'')] =
     map_of [(''b.txt'', ''121''), (''a.txt'', ''120'')] \<and>
   fst (commit sample_hasher ''2025-01-02 09:30:00'' ''add both'' w_ab) \<noteq>
     fst (commit sample_hasher ''2025-01-02 09:30:00'' ''add both'' w_ba)"
proof -
  have m: "map_of [(''a.txt'', ''120''), (''b.txt'', ''121'')] =
     map_of [(''b.txt'', ''121''), (''a.txt'', ''120'')]"
    by (auto simp: fun_eq_iff)
  have s: "stagingArea w_ab = [(''a.txt'', ''120''), (''b.txt'', ''121'')]"
    "stagingArea w_ba = [(''b.txt'', ''121''), (''a.txt'', ''120'')]"
    "files w_ba = files w_ab" "headCommitHash w_ba = headCommitHash w_ab"
    by (simp_all add: w_ab_def w_ba_def)
  show ?thesis
    using m s by (simp add: commit_ab commit_ba)
qed

text \<open>
  Claim C9 as amended. The digest of a commit created by \<open>commit\<close> is the hash of its
  message, its timestamp, its parents in order and its tree entries in the iteration order
  of the tree, concatenated. Hence two runs with the same hasher, in any two states, whose
  created commits agree on message, timestamp, ordered parents and the sequence of tree
  entries produce the same digest. (That \<open>std::hash\<close> itself returns equal values in
  different runs of the program is a property of the C++ library, outside this model.)
\<close>

theorem commit_digest_determined:
  assumes "fst (commit hasher now1 msg1 w1) = Committed h1"
    and "fst (commit hasher now2 msg2 w2) = Committed h2"
    and "map_of (commits (snd (commit hasher now1 msg1 w1))) h1 = Some c1"
    and "map_of (commits (snd (commit hasher now2 msg2 w2))) h2 = Some c2"
    and "message c1 = message c2" and "timestamp c1 = timestamp c2"
    and "parentHashes c1 = parentHashes c2"
    and "entries (fileBlobs c1) = entries (fileBlobs c2)"
  shows "h1 = h2 \<and>
         h1 = hashFileContent hasher
                (message c1 @ timestamp c1 @ concat (parentHashes c1) @
                 concat (map (\<lambda>(f, b). f @ b) (entries (fileBlobs c1))))"
  using commit_created [OF assms(1,3)] commit_created [OF assms(2,4)] assms(5-8)
  by (simp add: commit_digest_def)

theorem commit_digest_determined_witness:
  "fst (commit sample_hasher ''2025-01-02 09:30:00'' ''add both'' w_ab) =
     Committed ''3532085558163542402'' \<and>
   fst (commit sample_hasher ''2025-01-02 09:30:00'' ''add both''
          (w_ab\<lparr>files := (''c.txt'', File ''z'') # files w_ab\<rparr>)) =
     Committed ''3532085558163542402'' \<and>
   ''3532085558163542402'' =
     hashFileContent sample_hasher
       (''add both'' @ ''2025-01-02 09:30:00'' @ concat [] @
        concat (map (\<lambda>(f, b). f @ b)
          (entries [(''a.txt'', ''120''), (''b.txt'', ''121'')])))"
proof -
  let ?c = "\<lparr>hash = ''3532085558163542402'', message = ''add both'',
        timestamp = ''2025-01-02 09:30:00'', parentHashes = [],
        fileBlobs = [(''a.txt'', ''120''), (''b.txt'', ''121'')]\<rparr>"
  have l1: "map_of (commits (snd (commit sample_hasher ''2025-01-02 09:30:00'' ''add both'' w_ab)))
              ''3532085558163542402'' = Some ?c"
    by (simp add: commit_ab)
  have l2: "map_of (commits (snd (commit sample_hasher ''2025-01-02 09:30:00'' ''add both''
              (w_ab\<lparr>files := (''c.txt'', File ''z'') # files w_ab\<rparr>))))
              ''3532085558163542402'' = Some ?c"
    by (simp add: commit_ab_extra)
  show ?thesis
    using commit_digest_determined [OF commit_ab(1) commit_ab_extra(1) l1 l2]
      commit_ab(1) commit_ab_extra(1)
    by simp
qed

subsection \<open>The order of the writes of commit\<close>

text \<open>
  Claim C2 says that \<open>commit\<close> writes the commit record before the branch ref and HEAD, so
  that no ref on disk ever names a digest without a record. \<open>commit\<close> calls
  \<open>saveHeadAndBranchRefs\<close> first and \<open>writeCommitToFile\<close> after it. Committing a staged
  file on \<open>master\<close>, the three writes are the ref, HEAD and the record, in this order;
  after the first and after the second of them the ref file of \<open>master\<close> names a digest
  that has no commit record, which was not so before the run.
\<close>

theorem commit_names_digest_before_record:
  "fst (commit sample_hasher ''2025-01-02 09:30:00'' ''second'' w_staged) =
     Committed ''10355094686153184431'' \<and>
   journal w_staged = [] \<and>
   journal (snd (commit sample_hasher ''2025-01-02 09:30:00'' ''second'' w_staged)) =
     [Write ''.minigit/refs/heads/master'' ''10355094686153184431\<newline>'',
      Write ''.minigit/HEAD'' ''ref: refs/heads/master\<newline>'',
      Write ''.minigit/commits/10355094686153184431''
        (''message:second\<newline>timestamp:2025-01-02 09:30:00\<newline>'' @
         ''parents:10026310142314928280 \<newline>'' @
         ''files:\<newline>file.txt:70560969093\<newline>notes.txt:110534788\<newline>'')] \<and>
   \<not> ref_dangling (files w_staged) ''master'' \<and>
   ref_dangling
     (replay (take 1 (journal (snd (commit sample_hasher ''2025-01-02 09:30:00'' ''second''
                                     w_staged))))
        (files w_staged)) ''master'' \<and>
   ref_dangling
     (replay (take 2 (journal (snd (commit sample_hasher ''2025-01-02 09:30:00'' ''second''
                                     w_staged))))
        (files w_staged)) ''master''"
  by (simp add: commit_staged)
     (simp add: ref_dangling_def replay_def file_at_def first_line_def fs_exists_def
        w_staged_def w_first_def files_first_def)

text \<open>
  Claim C2 as amended. For every run of \<open>commit\<close> that creates a commit, the file writes of
  the run are, in this order and each at most once: the ref file of the current branch with
  the new digest (only when HEAD is attached), \<open>.minigit/HEAD\<close>, and last the commit
  record. \<open>commit\<close> writes no blob, and apart from these writes it only creates missing
  directories. The file tree after the run is the old one with these operations replayed.
\<close>

theorem commit_write_order:
  assumes "fst (commit hasher now msg w) = Committed h"
  shows "\<exists>ops. trace w (snd (commit hasher now msg w)) ops \<and>
           subseq (filter (\<lambda>op. \<not> is_mkdir op) ops)
             [Write (''.minigit/refs/heads/'' @ headBranch w) (h @ ''\<newline>''),
              Write ''.minigit/HEAD'' (head_text (snd (commit hasher now msg w))),
              Write (''.minigit/commits/'' @ h)
                (serialize (commit_at (commits (snd (commit hasher now msg w))) h))]"
proof -
  let ?w1 = "ensureHeadLoaded w"
  let ?st = "getStagedChanges (files w) (stagingArea w) (currentHeadCommit ?w1)"
  define n where "n = new_commit hasher now msg ?w1 (deleted ?st)"
  define w2 where "w2 = record_commit n ?w1"
  obtain b w3 where sv: "saveHeadAndBranchRefs w2 = (b, w3)"
    by (cases "saveHeadAndBranchRefs w2")
  from assms have repo: "fs_exists (files w) ''.minigit''" and dirty: "\<not> staged_clean ?st"
    by (auto simp: commit_def Let_def ensureHeadLoaded_frame split: if_splits)
  have run: "commit hasher now msg w =
      (if b then (Committed (hash n), (writeCommitToFile n w3)\<lparr>stagingArea := []\<rparr>)
       else (Crashed, w3))"
    using repo dirty sv
    by (simp add: commit_def Let_def ensureHeadLoaded_frame n_def [symmetric] w2_def [symmetric])
  from assms have b: b and h: "h = hash n"
    by (auto simp: run split: if_splits)
  let ?w' = "snd (commit hasher now msg w)"
  have res: "?w' = (writeCommitToFile n w3)\<lparr>stagingArea := []\<rparr>"
    using b by (simp add: run)
  have fr: "commits w3 = commits w2" "headBranch w3 = headBranch w2"
    "headCommitHash w3 = headCommitHash w2"
    using saveHeadAndBranchRefs_frame [of w2] sv by simp_all
  have w2: "headBranch w2 = headBranch w" "headCommitHash w2 = h"
    "map_of (commits w2) h = Some n"
    by (simp_all add: w2_def record_commit_def ensureHeadLoaded_frame h AList.update_conv')
  have ht: "head_text ?w' = head_text w2"
    by (simp add: res head_text_def writeCommitToFile_frame fr)
  have ca: "commit_at (commits ?w') h = n"
    by (simp add: res writeCommitToFile_frame fr w2 commit_at_def)
  have t0: "trace w w2 []"
    by (rule trace_same_disk) (simp_all add: w2_def record_commit_def ensureHeadLoaded_frame)
  from saveHeadAndBranchRefs_trace [of w2] sv obtain a where
    a: "trace w2 w3 a"
       "subseq (filter (\<lambda>op. \<not> is_mkdir op) a)
          [Write (''.minigit/refs/heads/'' @ headBranch w) (h @ ''\<newline>''),
           Write ''.minigit/HEAD'' (head_text w2)]"
    by (auto simp: w2)
  have t3: "trace w w3 a"
    using trace_trans [OF t0 a(1)] by simp
  have same: "files ?w' = files (writeCommitToFile n w3)"
    "journal ?w' = journal (writeCommitToFile n w3)"
    by (simp_all add: res)
  from writeCommitToFile_trace [of w3 n] obtain c where
    c: "trace w3 (writeCommitToFile n w3) c"
       "c = [] \<or> c = [Write (''.minigit/commits/'' @ h) (serialize n)]"
    by (auto simp: h)
  have "trace w (writeCommitToFile n w3) (a @ c)"
    by (rule trace_trans [OF t3 c(1)])
  then have tr: "trace w ?w' (a @ c)"
    using same by (simp add: trace_def)
  have "subseq (filter (\<lambda>op. \<not> is_mkdir op) c) [Write (''.minigit/commits/'' @ h) (serialize n)]"
    using c(2) by auto
  with a(2) have
    "subseq (filter (\<lambda>op. \<not> is_mkdir op) a @ filter (\<lambda>op. \<not> is_mkdir op) c)
       ([Write (''.minigit/refs/heads/'' @ headBranch w) (h @ ''\<newline>''),
         Write ''.minigit/HEAD'' (head_text w2)] @
        [Write (''.minigit/commits/'' @ h) (serialize n)])"
    by (rule list_emb_append_mono)
  then have "subseq (filter (\<lambda>op. \<not> is_mkdir op) (a @ c))
       [Write (''.minigit/refs/heads/'' @ headBranch w) (h @ ''\<newline>''),
        Write ''.minigit/HEAD'' (head_text ?w'),
        Write (''.minigit/commits/'' @ h) (serialize (commit_at (commits ?w') h))]"
    by (simp add: ht ca)
  with tr show ?thesis by blast
qed

theorem commit_write_order_witness:
  "fst (commit sample_hasher ''2025-01-02 09:30:00'' ''second'' w_staged) =
     Committed ''10355094686153184431'' \<and>
   (\<exists>ops. trace w_staged (snd (commit sample_hasher ''2025-01-02 09:30:00'' ''second'' w_staged)) ops \<and>
      subseq (filter (\<lambda>op. \<not> is_mkdir op) ops)
        [Write (''.minigit/refs/heads/'' @ ''master'') (''10355094686153184431'' @ ''\<newline>''),
         Write ''.minigit/HEAD''
           (head_text (snd (commit sample_hasher ''2025-01-02 09:30:00'' ''second'' w_staged))),
         Write (''.minigit/commits/'' @ ''10355094686153184431'')
           (serialize (commit_at
              (commits (snd (commit sample_hasher ''2025-01-02 09:30:00'' ''second'' w_staged)))
              ''10355094686153184431''))])"
proof -
  have hb: "headBranch w_staged = ''master''"
    by (simp add: w_staged_def w_first_def)
  show ?thesis
    using commit_write_order [OF commit_staged(1)] commit_staged(1) unfolding hb by blast
qed

end
